theory Spec2Isabelle
  imports Complex_Main
begin

section \<open>The cart store of \<open>client/src/context/CartContext.jsx\<close>\<close>

text \<open>
  The component \<open>CartProvider\<close> keeps two pieces of React state, \<open>cartItems\<close> and
  \<open>loading\<close>, mirrors \<open>cartItems\<close> to \<open>localStorage\<close> under the key \<open>cartItems\<close>, and
  hands four mutators and two derived totals to its consumers.

  The source is JavaScript, so \<open>cartItems\<close> holds whatever value was last given to
  \<open>setCartItems\<close>: the array literal of \<open>useState\<close>, the result of \<open>JSON.parse\<close>, or the
  array an operation has built. The embedding therefore keeps the state as a JavaScript
  value and writes every \<open>TypeError\<close> of the source as a branch of the model.
\<close>

subsection \<open>JavaScript values\<close>

text \<open>
  A finite number is the rational it denotes; the Number values of the source are the
  doubles among the rationals, \<open>NaN\<close> and the two infinities. Negative zero is not told
  apart from zero: the program neither divides by a number nor inspects its sign, and
  every text it makes from a number is the same for both. An object is the list of its own
  properties in property order.
\<close>

datatype jsval =
    JUndefined
  | JNull
  | JBool bool
  | JNum rat
  | JNaN
  | JInfinity
  | JNegInfinity
  | JStr string
  | JArr "jsval list"
  | JObj "(string \<times> jsval) list"

datatype error = TypeError

text \<open>
  Property read \<open>v.k\<close>, as far as own properties decide it: reading from \<open>undefined\<close> or
  \<open>null\<close> throws, an object gives its own property or \<open>undefined\<close>, every other value
  gives \<open>undefined\<close>. The names this program reads (\<open>productId\<close>, \<open>quantity\<close>, \<open>price\<close>)
  are defined on no built-in prototype, so for them this is the value of \<open>v.k\<close>.
\<close>

fun get_prop :: "jsval \<Rightarrow> string \<Rightarrow> error + jsval" where
  "get_prop JUndefined k = Inl TypeError"
| "get_prop JNull k = Inl TypeError"
| "get_prop (JObj kvs) k = Inr (case map_of kvs k of Some v \<Rightarrow> v | None \<Rightarrow> JUndefined)"
| "get_prop v k = Inr JUndefined"

subsection \<open>Doubles\<close>

text \<open>
  \<open>floor_log2 x\<close> is the exponent \<open>e\<close> with \<open>2^e \<le> x < 2^(e+1)\<close> of a positive \<open>x\<close>, found by
  halving or doubling.
\<close>

function log2_up :: "rat \<Rightarrow> nat" where
  "log2_up x = (if x < 2 then 0 else Suc (log2_up (x / 2)))"
  by pat_completeness auto
termination
proof (relation "measure (\<lambda>x. nat \<lfloor>x\<rfloor>)")
  show "wf (measure (\<lambda>x::rat. nat \<lfloor>x\<rfloor>))" by simp
next
  fix x :: rat
  assume "\<not> x < 2"
  then have "\<lfloor>x / 2\<rfloor> < \<lfloor>x\<rfloor>" by linarith
  moreover from \<open>\<not> x < 2\<close> have "0 < \<lfloor>x\<rfloor>" by linarith
  ultimately show "(x / 2, x) \<in> measure (\<lambda>x. nat \<lfloor>x\<rfloor>)" by simp
qed

function log2_down :: "rat \<Rightarrow> nat" where
  "log2_down x = (if x \<le> 0 \<or> 1 \<le> x then 0 else Suc (log2_down (2 * x)))"
  by pat_completeness auto
termination
proof (relation "measure (\<lambda>x. nat \<lfloor>1 / x\<rfloor>)")
  show "wf (measure (\<lambda>x::rat. nat \<lfloor>1 / x\<rfloor>))" by simp
next
  fix x :: rat
  assume "\<not> (x \<le> 0 \<or> 1 \<le> x)"
  then have x: "0 < x" "x < 1" by auto
  define y where "y = 1 / x"
  from x have "1 < y" by (simp add: y_def)
  then have 2: "1 \<le> \<lfloor>y\<rfloor>" by (simp add: le_floor_iff)
  then have 1: "\<lfloor>y / 2\<rfloor> < \<lfloor>y\<rfloor>" by linarith
  have "1 / (2 * x) = y / 2" by (simp add: y_def)
  with 1 2 have "\<lfloor>1 / (2 * x)\<rfloor> < \<lfloor>1 / x\<rfloor>" and "0 < \<lfloor>1 / x\<rfloor>"
    by (simp_all add: y_def mult.commute)
  then show "(2 * x, x) \<in> measure (\<lambda>x. nat \<lfloor>1 / x\<rfloor>)" by simp
qed

declare log2_up.simps [simp del] log2_down.simps [simp del]

definition floor_log2 :: "rat \<Rightarrow> int" where
  "floor_log2 x = (if 1 \<le> x then int (log2_up x) else - int (log2_down x))"

text \<open>
  The Number value for a rational: the double nearest to it, the one with the even
  significand when two are equally near. A double has a significand of 53 bits above the
  exponent \<open>-1022\<close> and is a multiple of \<open>2^-1074\<close> below it; what rounds to \<open>2^1024\<close> or
  beyond is an infinity.
\<close>

definition round_half_even :: "rat \<Rightarrow> int" where
  "round_half_even q =
     (let f = \<lfloor>q\<rfloor>; r = q - of_int f
      in if r < 1 / 2 then f else if 1 / 2 < r then f + 1 else if even f then f else f + 1)"

definition round_double :: "rat \<Rightarrow> jsval" where
  "round_double x =
     (if x = 0 then JNum 0
      else let e = max (floor_log2 \<bar>x\<bar>) (- 1022);
               ulp = 2 powi (e - 52);
               y = of_int (round_half_even (\<bar>x\<bar> / ulp)) * ulp
           in if 2 ^ 1024 \<le> y then (if x < 0 then JNegInfinity else JInfinity)
              else JNum (if x < 0 then - y else y))"

text \<open>
  Sum and product of two Number values: the exact result rounded, an infinity where one
  operand is infinite, and \<open>NaN\<close> for \<open>\<infinity> - \<infinity>\<close>, for \<open>0 \<times> \<infinity>\<close> and where an operand is
  \<open>NaN\<close>.
\<close>

fun number_add :: "jsval \<Rightarrow> jsval \<Rightarrow> jsval" where
  "number_add (JNum a) (JNum b) = round_double (a + b)"
| "number_add JInfinity JInfinity = JInfinity"
| "number_add JInfinity (JNum b) = JInfinity"
| "number_add (JNum a) JInfinity = JInfinity"
| "number_add JNegInfinity JNegInfinity = JNegInfinity"
| "number_add JNegInfinity (JNum b) = JNegInfinity"
| "number_add (JNum a) JNegInfinity = JNegInfinity"
| "number_add a b = JNaN"

fun number_mul :: "jsval \<Rightarrow> jsval \<Rightarrow> jsval" where
  "number_mul (JNum a) (JNum b) = round_double (a * b)"
| "number_mul JInfinity (JNum b) =
     (if b = 0 then JNaN else if 0 < b then JInfinity else JNegInfinity)"
| "number_mul (JNum a) JInfinity =
     (if a = 0 then JNaN else if 0 < a then JInfinity else JNegInfinity)"
| "number_mul JNegInfinity (JNum b) =
     (if b = 0 then JNaN else if 0 < b then JNegInfinity else JInfinity)"
| "number_mul (JNum a) JNegInfinity =
     (if a = 0 then JNaN else if 0 < a then JNegInfinity else JInfinity)"
| "number_mul JInfinity JInfinity = JInfinity"
| "number_mul JInfinity JNegInfinity = JNegInfinity"
| "number_mul JNegInfinity JInfinity = JNegInfinity"
| "number_mul JNegInfinity JNegInfinity = JInfinity"
| "number_mul a b = JNaN"

subsection \<open>Numbers as text\<close>

definition digit_char :: "nat \<Rightarrow> char" where
  "digit_char d = ''0123456789'' ! d"

function show_nat :: "nat \<Rightarrow> string" where
  "show_nat n = (if n < 10 then [digit_char n] else show_nat (n div 10) @ [digit_char (n mod 10)])"
  by pat_completeness auto
termination
  by (relation "measure id") auto

declare show_nat.simps [simp del]

text \<open>\<open>floor_log10 x\<close> is the exponent \<open>e\<close> with \<open>10^e \<le> x < 10^(e+1)\<close> of a positive \<open>x\<close>.\<close>

function log10_up :: "rat \<Rightarrow> nat" where
  "log10_up x = (if x < 10 then 0 else Suc (log10_up (x / 10)))"
  by pat_completeness auto
termination
proof (relation "measure (\<lambda>x. nat \<lfloor>x\<rfloor>)")
  show "wf (measure (\<lambda>x::rat. nat \<lfloor>x\<rfloor>))" by simp
next
  fix x :: rat
  assume "\<not> x < 10"
  then have "\<lfloor>x / 10\<rfloor> < \<lfloor>x\<rfloor>" by linarith
  moreover from \<open>\<not> x < 10\<close> have "0 < \<lfloor>x\<rfloor>" by linarith
  ultimately show "(x / 10, x) \<in> measure (\<lambda>x. nat \<lfloor>x\<rfloor>)" by simp
qed

function log10_down :: "rat \<Rightarrow> nat" where
  "log10_down x = (if x \<le> 0 \<or> 1 \<le> x then 0 else Suc (log10_down (10 * x)))"
  by pat_completeness auto
termination
proof (relation "measure (\<lambda>x. nat \<lfloor>1 / x\<rfloor>)")
  show "wf (measure (\<lambda>x::rat. nat \<lfloor>1 / x\<rfloor>))" by simp
next
  fix x :: rat
  assume "\<not> (x \<le> 0 \<or> 1 \<le> x)"
  then have x: "0 < x" "x < 1" by auto
  define y where "y = 1 / x"
  from x have "1 < y" by (simp add: y_def)
  then have 2: "1 \<le> \<lfloor>y\<rfloor>" by (simp add: le_floor_iff)
  then have 1: "\<lfloor>y / 10\<rfloor> < \<lfloor>y\<rfloor>" by linarith
  have "1 / (10 * x) = y / 10" by (simp add: y_def)
  with 1 2 have "\<lfloor>1 / (10 * x)\<rfloor> < \<lfloor>1 / x\<rfloor>" and "0 < \<lfloor>1 / x\<rfloor>"
    by (simp_all add: y_def mult.commute)
  then show "(10 * x, x) \<in> measure (\<lambda>x. nat \<lfloor>1 / x\<rfloor>)" by simp
qed

declare log10_up.simps [simp del] log10_down.simps [simp del]

definition floor_log10 :: "rat \<Rightarrow> int" where
  "floor_log10 x = (if 1 \<le> x then int (log10_up x) else - int (log10_down x))"

text \<open>
  \<open>Number::toString\<close> of a positive double \<open>x\<close> writes the shortest decimal \<open>s \<times> 10^(n-k)\<close>,
  \<open>s\<close> of \<open>k\<close> digits, whose Number value is \<open>x\<close>; among several of that length the one
  nearest to \<open>x\<close>, and the even one of two equally near. \<open>nearest_decimal x n k\<close> is the
  candidate \<open>s\<close> of \<open>k\<close> digits, \<open>denotes x n k\<close> tells whether its Number value is \<open>x\<close>; no
  double needs more than 17 digits.
\<close>

definition nearest_decimal :: "rat \<Rightarrow> int \<Rightarrow> nat \<Rightarrow> nat" where
  "nearest_decimal x n k =
     (let scale = 10 powi (n - int k);
          t = x / scale;
          lo = nat \<lfloor>t\<rfloor>;
          hi = lo + 1;
          ok_lo = (round_double (of_nat lo * scale) = JNum x);
          ok_hi = (round_double (of_nat hi * scale) = JNum x)
      in if ok_lo \<and> ok_hi
         then (if t - of_nat lo < of_nat hi - t then lo
               else if of_nat hi - t < t - of_nat lo then hi
               else if even lo then lo else hi)
         else if ok_hi then hi else lo)"

definition denotes :: "rat \<Rightarrow> int \<Rightarrow> nat \<Rightarrow> bool" where
  "denotes x n k = (round_double (of_nat (nearest_decimal x n k) * 10 powi (n - int k)) = JNum x)"

definition shortest_decimal :: "rat \<Rightarrow> nat \<times> int" where
  "shortest_decimal x =
     (let n = floor_log10 x + 1;
          k = (case List.find (denotes x n) [1..<18] of Some k \<Rightarrow> k | None \<Rightarrow> 17);
          s = nearest_decimal x n k
      in if s = 10 ^ k then (s div 10, n + 1) else (s, n))"

text \<open>
  The digits of \<open>s\<close> are then laid out by the position \<open>n\<close> of the decimal point: as an
  integer with zeros appended, with a point inside, with zeros after \<open>0.\<close>, or in exponent
  notation when \<open>n\<close> is above 21 or below -5.
\<close>

definition exponent_text :: "int \<Rightarrow> string" where
  "exponent_text e =
     (if e < 0 then CHR ''-'' # show_nat (nat (- e)) else CHR ''+'' # show_nat (nat e))"

definition positive_to_string :: "rat \<Rightarrow> string" where
  "positive_to_string x =
     (let (s, n) = shortest_decimal x;
          ds = show_nat s;
          k = int (length ds)
      in if k \<le> n \<and> n \<le> 21 then ds @ replicate (nat (n - k)) CHR ''0''
         else if 0 < n \<and> n \<le> 21 then take (nat n) ds @ ''.'' @ drop (nat n) ds
         else if - 6 < n \<and> n \<le> 0 then ''0.'' @ replicate (nat (- n)) CHR ''0'' @ ds
         else if k = 1 then ds @ ''e'' @ exponent_text (n - 1)
         else take 1 ds @ ''.'' @ drop 1 ds @ ''e'' @ exponent_text (n - 1))"

definition number_to_string :: "rat \<Rightarrow> string" where
  "number_to_string x =
     (if x = 0 then ''0''
      else if x < 0 then CHR ''-'' # positive_to_string (- x)
      else positive_to_string x)"

text \<open>
  \<open>Number.prototype.toFixed(2)\<close> of a finite number. From \<open>10^21\<close> on it is the text of the
  number. Below, \<open>hundredths x\<close> is the integer \<open>n\<close> for which \<open>n / 100\<close> is nearest to the
  magnitude of \<open>x\<close>, the larger of two equally near; its digits are padded to three and the
  point is set before the last two.
\<close>

definition hundredths :: "rat \<Rightarrow> nat" where
  "hundredths x = nat \<lfloor>\<bar>x\<bar> * 100 + 1 / 2\<rfloor>"

definition toFixed2 :: "rat \<Rightarrow> string" where
  "toFixed2 x =
     (if 10 ^ 21 \<le> \<bar>x\<bar> then number_to_string x
      else let m = show_nat (hundredths x);
               m' = (if length m \<le> 2 then replicate (3 - length m) CHR ''0'' @ m else m);
               a = take (length m' - 2) m' @ ''.'' @ drop (length m' - 2) m'
           in if x < 0 then CHR ''-'' # a else a)"

text \<open>
  \<open>toFixed\<close> as a method call: only a number has the method.
\<close>

fun toFixed :: "jsval \<Rightarrow> error + string" where
  "toFixed (JNum x) = Inr (toFixed2 x)"
| "toFixed JNaN = Inr ''NaN''"
| "toFixed JInfinity = Inr ''Infinity''"
| "toFixed JNegInfinity = Inr ''-Infinity''"
| "toFixed v = Inl TypeError"

subsection \<open>The operators \<open>+\<close> and \<open>*\<close>\<close>

text \<open>
  \<open>ToString\<close>. An array is joined with commas, \<open>undefined\<close> and \<open>null\<close> elements giving the
  empty string. The objects of this program are plain objects whose properties hold no
  function: \<open>Object.prototype.toString\<close> answers \<open>[object Object]\<close>, unless an own property
  named \<open>toString\<close> hides it, and then no method yields a primitive and the conversion
  throws.
\<close>

fun to_string :: "jsval \<Rightarrow> error + string"
  and join :: "jsval list \<Rightarrow> error + string"
  and join_elem :: "jsval \<Rightarrow> error + string" where
  "to_string JUndefined = Inr ''undefined''"
| "to_string JNull = Inr ''null''"
| "to_string (JBool b) = Inr (if b then ''true'' else ''false'')"
| "to_string (JNum n) = Inr (number_to_string n)"
| "to_string JNaN = Inr ''NaN''"
| "to_string JInfinity = Inr ''Infinity''"
| "to_string JNegInfinity = Inr ''-Infinity''"
| "to_string (JStr s) = Inr s"
| "to_string (JArr xs) = join xs"
| "to_string (JObj kvs) =
     (if ''toString'' \<in> fst ` set kvs then Inl TypeError else Inr ''[object Object]'')"
| "join [] = Inr []"
| "join [x] = join_elem x"
| "join (x # y # ys) =
     (case join_elem x of
        Inl e \<Rightarrow> Inl e
      | Inr s \<Rightarrow> (case join (y # ys) of Inl e \<Rightarrow> Inl e | Inr t \<Rightarrow> Inr (s @ '','' @ t)))"
| "join_elem JUndefined = Inr []"
| "join_elem JNull = Inr []"
| "join_elem v = to_string v"

text \<open>\<open>ToPrimitive\<close>: an array or object becomes its string, a primitive is itself.\<close>

fun to_primitive :: "jsval \<Rightarrow> error + jsval" where
  "to_primitive (JArr xs) = (case to_string (JArr xs) of Inl e \<Rightarrow> Inl e | Inr s \<Rightarrow> Inr (JStr s))"
| "to_primitive (JObj kvs) = (case to_string (JObj kvs) of Inl e \<Rightarrow> Inl e | Inr s \<Rightarrow> Inr (JStr s))"
| "to_primitive v = Inr v"

fun is_string :: "jsval \<Rightarrow> bool" where
  "is_string (JStr s) = True"
| "is_string v = False"

text \<open>\<open>ToString\<close> and \<open>ToNumber\<close> of a primitive that is no string.\<close>

definition prim_to_string :: "jsval \<Rightarrow> string" where
  "prim_to_string v = (case to_string v of Inl e \<Rightarrow> [] | Inr s \<Rightarrow> s)"

fun to_number :: "jsval \<Rightarrow> jsval" where
  "to_number JUndefined = JNaN"
| "to_number JNull = JNum 0"
| "to_number (JBool b) = JNum (if b then 1 else 0)"
| "to_number v = v"

text \<open>
  \<open>a + b\<close>: both operands are made primitive, left first; a string on either side makes
  it a concatenation, otherwise it is the sum of the two numbers.
\<close>

definition js_add :: "jsval \<Rightarrow> jsval \<Rightarrow> error + jsval" where
  "js_add a b =
     (case to_primitive a of
        Inl e \<Rightarrow> Inl e
      | Inr pa \<Rightarrow>
          (case to_primitive b of
             Inl e \<Rightarrow> Inl e
           | Inr pb \<Rightarrow>
               if is_string pa \<or> is_string pb
               then Inr (JStr (prim_to_string pa @ prim_to_string pb))
               else Inr (number_add (to_number pa) (to_number pb))))"

text \<open>
  \<open>a * b\<close>: each operand is made primitive and then a number, left first. The number a
  string stands for is the host's \<open>StringToNumber\<close>, the parameter \<open>string_to_number\<close>.
\<close>

definition to_numeric :: "(string \<Rightarrow> jsval) \<Rightarrow> jsval \<Rightarrow> error + jsval" where
  "to_numeric string_to_number v =
     (case to_primitive v of
        Inl e \<Rightarrow> Inl e
      | Inr (JStr s) \<Rightarrow> Inr (string_to_number s)
      | Inr p \<Rightarrow> Inr (to_number p))"

definition js_mul :: "(string \<Rightarrow> jsval) \<Rightarrow> jsval \<Rightarrow> jsval \<Rightarrow> error + jsval" where
  "js_mul string_to_number a b =
     (case to_numeric string_to_number a of
        Inl e \<Rightarrow> Inl e
      | Inr x \<Rightarrow>
          (case to_numeric string_to_number b of
             Inl e \<Rightarrow> Inl e
           | Inr y \<Rightarrow> Inr (number_mul x y)))"

subsection \<open>Object spread and array methods\<close>

text \<open>
  \<open>{ ...item }\<close> copies the own enumerable properties of \<open>item\<close>: those of an object, the
  indexed elements of an array, the indexed characters of a string, and nothing of any
  other value.
\<close>

fun spread :: "jsval \<Rightarrow> (string \<times> jsval) list" where
  "spread (JObj kvs) = kvs"
| "spread (JArr xs) = map (\<lambda>(i, x). (show_nat i, x)) (enumerate 0 xs)"
| "spread (JStr s) = map (\<lambda>(i, c). (show_nat i, JStr [c])) (enumerate 0 s)"
| "spread v = []"

text \<open>
  A property given after the spread in an object literal replaces the value of a property
  of that name where it stands, and is added at the end when there is none.
\<close>

definition set_prop :: "(string \<times> jsval) list \<Rightarrow> string \<Rightarrow> jsval \<Rightarrow> (string \<times> jsval) list" where
  "set_prop kvs k v =
     (if k \<in> fst ` set kvs
      then map (\<lambda>(k', v'). if k' = k then (k', v) else (k', v')) kvs
      else kvs @ [(k, v)])"

text \<open>
  \<open>Array.prototype.findIndex\<close>, \<open>map\<close>, \<open>filter\<close> and \<open>reduce\<close> with a callback that may
  throw: the first exception ends the call. \<open>findIndex\<close> stops at the first element the
  callback accepts and answers \<open>-1\<close> when there is none; \<open>map\<close> passes each element with
  its index.
\<close>

fun findIndex :: "(jsval \<Rightarrow> error + bool) \<Rightarrow> jsval list \<Rightarrow> error + int" where
  "findIndex p [] = Inr (- 1)"
| "findIndex p (x # xs) =
     (case p x of
        Inl e \<Rightarrow> Inl e
      | Inr b \<Rightarrow>
          if b then Inr 0
          else (case findIndex p xs of
                  Inl e \<Rightarrow> Inl e
                | Inr i \<Rightarrow> Inr (if i > - 1 then i + 1 else - 1)))"

fun map_js :: "(jsval \<Rightarrow> int \<Rightarrow> error + jsval) \<Rightarrow> int \<Rightarrow> jsval list \<Rightarrow> error + jsval list" where
  "map_js f index [] = Inr []"
| "map_js f index (x # xs) =
     (case f x index of
        Inl e \<Rightarrow> Inl e
      | Inr y \<Rightarrow> (case map_js f (index + 1) xs of Inl e \<Rightarrow> Inl e | Inr ys \<Rightarrow> Inr (y # ys)))"

fun reduce :: "(jsval \<Rightarrow> jsval \<Rightarrow> error + jsval) \<Rightarrow> jsval \<Rightarrow> jsval list \<Rightarrow> error + jsval" where
  "reduce f acc [] = Inr acc"
| "reduce f acc (x # xs) = (case f acc x of Inl e \<Rightarrow> Inl e | Inr acc' \<Rightarrow> reduce f acc' xs)"

fun filter_js :: "(jsval \<Rightarrow> error + bool) \<Rightarrow> jsval list \<Rightarrow> error + jsval list" where
  "filter_js p [] = Inr []"
| "filter_js p (x # xs) =
     (case p x of
        Inl e \<Rightarrow> Inl e
      | Inr b \<Rightarrow>
          (case filter_js p xs of
             Inl e \<Rightarrow> Inl e
           | Inr ys \<Rightarrow> Inr (if b then x # ys else ys)))"

subsection \<open>Line items\<close>

text \<open>
  \<open>readable\<close>: a property can be read from the value without an exception.
  \<open>has_productId item p\<close>: the \<open>productId\<close> of \<open>item\<close> is the string \<open>p\<close>.
\<close>

fun readable :: "jsval \<Rightarrow> bool" where
  "readable JUndefined = False"
| "readable JNull = False"
| "readable v = True"

definition has_productId :: "jsval \<Rightarrow> string \<Rightarrow> bool" where
  "has_productId item productId = (get_prop item ''productId'' = Inr (JStr productId))"

subsection \<open>The operations\<close>

text \<open>
  An operation reads \<open>cartItems\<close> from the closure of the latest render and returns the
  value it passes to \<open>setCartItems\<close>, or the exception it throws before reaching that call.
  The product id passed by a caller is a string, so \<open>item.productId === productId\<close> holds
  exactly when the item's property is that string.
\<close>

text \<open>
  The product handed to \<open>addToCart\<close>. Its \<open>_id\<close> is a string, as is every product id a
  caller passes; the other four fields are copied into the line item without being looked
  at, so they are any values. A quantity a caller passes is an integer that is a Number
  value, stored as that number.
\<close>

record product =
  product_id :: string
  title :: jsval
  price :: jsval
  imageUrl :: jsval
  stock :: jsval

definition productId_eq :: "string \<Rightarrow> jsval \<Rightarrow> error + bool" where
  "productId_eq productId item =
     (case get_prop item ''productId'' of
        Inl e \<Rightarrow> Inl e
      | Inr v \<Rightarrow> Inr (v = JStr productId))"

definition productId_neq :: "string \<Rightarrow> jsval \<Rightarrow> error + bool" where
  "productId_neq productId item =
     (case get_prop item ''productId'' of
        Inl e \<Rightarrow> Inl e
      | Inr v \<Rightarrow> Inr (v \<noteq> JStr productId))"

definition newItem :: "product \<Rightarrow> int \<Rightarrow> jsval" where
  "newItem product quantity =
     JObj [(''productId'', JStr (product_id product)),
           (''title'', title product),
           (''price'', price product),
           (''imageUrl'', imageUrl product),
           (''stock'', stock product),
           (''quantity'', JNum (of_int quantity))]"

text \<open>\<open>{ ...item, quantity: v }\<close>\<close>

definition with_quantity :: "jsval \<Rightarrow> jsval \<Rightarrow> jsval" where
  "with_quantity item v = JObj (set_prop (spread item) ''quantity'' v)"

text \<open>\<open>{ ...item, quantity: item.quantity + quantity }\<close>\<close>

definition add_quantity :: "int \<Rightarrow> jsval \<Rightarrow> error + jsval" where
  "add_quantity quantity item =
     (case get_prop item ''quantity'' of
        Inl e \<Rightarrow> Inl e
      | Inr old \<Rightarrow>
          (case js_add old (JNum (of_int quantity)) of
             Inl e \<Rightarrow> Inl e
           | Inr v \<Rightarrow> Inr (with_quantity item v)))"

text \<open>
  The second argument of \<open>addToCart\<close> is \<open>None\<close> when the caller omits it, and the default
  parameter \<open>quantity = 1\<close> applies.
\<close>

definition default_quantity :: "int option \<Rightarrow> int" where
  "default_quantity quantity_arg = (case quantity_arg of None \<Rightarrow> 1 | Some q \<Rightarrow> q)"

definition addToCart :: "jsval \<Rightarrow> product \<Rightarrow> int option \<Rightarrow> error + jsval" where
  "addToCart cartItems product quantity_arg =
     (let quantity = default_quantity quantity_arg in
      case cartItems of
        JArr items \<Rightarrow>
          (case findIndex (productId_eq (product_id product)) items of
             Inl e \<Rightarrow> Inl e
           | Inr existingItemIndex \<Rightarrow>
               if existingItemIndex > - 1
               then (case map_js
                            (\<lambda>item index.
                               if index = existingItemIndex then add_quantity quantity item
                               else Inr item)
                            0 items of
                       Inl e \<Rightarrow> Inl e
                     | Inr updatedCartItems \<Rightarrow> Inr (JArr updatedCartItems))
               else Inr (JArr (items @ [newItem product quantity])))
      | _ \<Rightarrow> Inl TypeError)"

definition removeFromCart :: "jsval \<Rightarrow> string \<Rightarrow> error + jsval" where
  "removeFromCart cartItems productId =
     (case cartItems of
        JArr items \<Rightarrow>
          (case filter_js (productId_neq productId) items of
             Inl e \<Rightarrow> Inl e
           | Inr updatedCartItems \<Rightarrow> Inr (JArr updatedCartItems))
      | _ \<Rightarrow> Inl TypeError)"

text \<open>\<open>{ ...item, quantity: newQuantity }\<close> for the items whose \<open>productId\<close> matches.\<close>

definition set_quantity :: "string \<Rightarrow> int \<Rightarrow> jsval \<Rightarrow> error + jsval" where
  "set_quantity productId newQuantity item =
     (case productId_eq productId item of
        Inl e \<Rightarrow> Inl e
      | Inr b \<Rightarrow>
          Inr (if b then with_quantity item (JNum (of_int newQuantity)) else item))"

definition updateQuantity :: "jsval \<Rightarrow> string \<Rightarrow> int \<Rightarrow> error + jsval" where
  "updateQuantity cartItems productId newQuantity =
     (case cartItems of
        JArr items \<Rightarrow>
          (case map_js (\<lambda>item index. set_quantity productId newQuantity item) 0 items of
             Inl e \<Rightarrow> Inl e
           | Inr updatedCartItems \<Rightarrow> Inr (JArr updatedCartItems))
      | _ \<Rightarrow> Inl TypeError)"

definition clearCart :: jsval where
  "clearCart = JArr []"

text \<open>
  The derived values of a render. \<open>totalItems\<close> is
  \<open>cartItems.reduce((acc, item) => acc + item.quantity, 0)\<close>, \<open>totalPrice\<close> is
  \<open>cartItems.reduce((acc, item) => acc + (item.price * item.quantity), 0)\<close>, and \<open>render\<close>
  gives the \<open>totalItems\<close> and the \<open>totalPrice.toFixed(2)\<close> of \<open>cartContextValue\<close>, or
  the exception that ends the render.
\<close>

definition totalItems :: "jsval \<Rightarrow> error + jsval" where
  "totalItems cartItems =
     (case cartItems of
        JArr items \<Rightarrow>
          reduce (\<lambda>acc item. case get_prop item ''quantity'' of
                                Inl e \<Rightarrow> Inl e
                              | Inr q \<Rightarrow> js_add acc q)
                 (JNum 0) items
      | _ \<Rightarrow> Inl TypeError)"

definition totalPrice :: "(string \<Rightarrow> jsval) \<Rightarrow> jsval \<Rightarrow> error + jsval" where
  "totalPrice string_to_number cartItems =
     (case cartItems of
        JArr items \<Rightarrow>
          reduce (\<lambda>acc item. case get_prop item ''price'' of
                                Inl e \<Rightarrow> Inl e
                              | Inr p \<Rightarrow>
                                  (case get_prop item ''quantity'' of
                                     Inl e \<Rightarrow> Inl e
                                   | Inr q \<Rightarrow>
                                       (case js_mul string_to_number p q of
                                          Inl e \<Rightarrow> Inl e
                                        | Inr m \<Rightarrow> js_add acc m)))
                 (JNum 0) items
      | _ \<Rightarrow> Inl TypeError)"

definition render :: "(string \<Rightarrow> jsval) \<Rightarrow> jsval \<Rightarrow> error + jsval \<times> string" where
  "render string_to_number cartItems =
     (case totalItems cartItems of
        Inl e \<Rightarrow> Inl e
      | Inr n \<Rightarrow>
          (case totalPrice string_to_number cartItems of
             Inl e \<Rightarrow> Inl e
           | Inr t \<Rightarrow> (case toFixed t of Inl e \<Rightarrow> Inl e | Inr text \<Rightarrow> Inr (n, text))))"

subsection \<open>The component: state, effects and events\<close>

text \<open>
  The state of the component and of its storage collaborator. \<open>JSON.parse\<close> and
  \<open>JSON.stringify\<close> belong to the host and are parameters: \<open>parse s\<close> is \<open>None\<close> when
  \<open>JSON.parse\<close> throws its \<open>SyntaxError\<close>.
\<close>

record store =
  cartItems :: jsval
  loading :: bool
  localStorage :: "string \<rightharpoonup> string"

definition initial :: "(string \<rightharpoonup> string) \<Rightarrow> store" where
  "initial stored = \<lparr>cartItems = JArr [], loading = True, localStorage = stored\<rparr>"

text \<open>
  The first effect. \<open>if (storedCart)\<close> takes the absent key and the empty string alike for
  no cart; the \<open>catch\<close> removes the key; the \<open>finally\<close> clears \<open>loading\<close> on every path.
\<close>

definition restore :: "(string \<Rightarrow> jsval option) \<Rightarrow> store \<Rightarrow> store" where
  "restore parse st =
     (let st' =
        (case localStorage st ''cartItems'' of
           None \<Rightarrow> st
         | Some storedCart \<Rightarrow>
             if storedCart = [] then st
             else (case parse storedCart of
                     Some v \<Rightarrow> st\<lparr>cartItems := v\<rparr>
                   | None \<Rightarrow> st\<lparr>localStorage := (localStorage st)(''cartItems'' := None)\<rparr>))
      in st'\<lparr>loading := False\<rparr>)"

text \<open>
  The second effect, run after a render with the \<open>cartItems\<close> and \<open>loading\<close> of that
  render.
\<close>

definition persist :: "(jsval \<Rightarrow> string) \<Rightarrow> store \<Rightarrow> store" where
  "persist stringify st =
     (if \<not> loading st
      then st\<lparr>localStorage := (localStorage st)(''cartItems'' \<mapsto> stringify (cartItems st))\<rparr>
      else st)"

text \<open>
  Mounting runs both effects after the first render. The second effect of that commit
  still sees the \<open>cartItems\<close> and \<open>loading\<close> of the first render; the state set by the first
  effect shows in the next render, after which the second effect runs again. (A render
  that throws ends the component before its effects run; \<open>mount\<close> and \<open>step\<close> describe the
  renders that succeed.)
\<close>

definition mount :: "(string \<Rightarrow> jsval option) \<Rightarrow> (jsval \<Rightarrow> string) \<Rightarrow> store \<Rightarrow> store" where
  "mount parse stringify st =
     (let restored = restore parse st;
          first_commit = persist stringify (st\<lparr>localStorage := localStorage restored\<rparr>)
      in persist stringify (restored\<lparr>localStorage := localStorage first_commit\<rparr>))"

text \<open>
  A call of one of the four operations from the latest render. An exception leaves the
  state as it was; otherwise the new value is rendered and the second effect runs.
\<close>

datatype event =
    AddToCart product "int option"
  | RemoveFromCart string
  | UpdateQuantity string int
  | ClearCart

fun run :: "event \<Rightarrow> jsval \<Rightarrow> error + jsval" where
  "run (AddToCart product quantity) items = addToCart items product quantity"
| "run (RemoveFromCart productId) items = removeFromCart items productId"
| "run (UpdateQuantity productId newQuantity) items = updateQuantity items productId newQuantity"
| "run ClearCart items = Inr clearCart"

definition step :: "(jsval \<Rightarrow> string) \<Rightarrow> store \<Rightarrow> event \<Rightarrow> store" where
  "step stringify st ev =
     (case run ev (cartItems st) of
        Inl e \<Rightarrow> st
      | Inr v \<Rightarrow> persist stringify (st\<lparr>cartItems := v\<rparr>))"

definition steps :: "(jsval \<Rightarrow> string) \<Rightarrow> store \<Rightarrow> event list \<Rightarrow> store" where
  "steps stringify st evs = foldl (step stringify) st evs"

subsection \<open>Calls and renders\<close>

text \<open>
  An operation reads the \<open>cartItems\<close> of the render it was created in and hands
  \<open>setCartItems\<close> a value, not a function of the state. The calls made from one render
  therefore all start from the \<open>cartItems\<close> of that render, and the value set last is the
  one rendered next; an exception ends the handler, and what was set before it stays set.
  \<open>same_render rendered pending evs\<close> is the value rendered after the calls \<open>evs\<close> made
  from the render of \<open>rendered\<close>, where \<open>pending\<close> is what has been set so far; \<open>renders\<close>
  runs one list of calls per render.
\<close>

fun same_render :: "jsval \<Rightarrow> jsval \<Rightarrow> event list \<Rightarrow> jsval" where
  "same_render rendered pending [] = pending"
| "same_render rendered pending (ev # evs) =
     (case run ev rendered of
        Inl e \<Rightarrow> pending
      | Inr v \<Rightarrow> same_render rendered v evs)"

fun renders :: "jsval \<Rightarrow> event list list \<Rightarrow> jsval" where
  "renders rendered [] = rendered"
| "renders rendered (evs # rest) = renders (same_render rendered rendered evs) rest"

text \<open>
  A sequence of \<open>addToCart\<close> calls, each made from the render that follows the call
  before it. \<open>requested calls p\<close> is the sum of the quantities the calls pass for the product
  id \<open>p\<close>, \<open>magnitude calls\<close> the sum of their magnitudes, and \<open>line_items items p\<close> are the
  items of a cart with that \<open>productId\<close>.
\<close>

definition one_call_per_render :: "(product \<times> int option) list \<Rightarrow> event list list" where
  "one_call_per_render calls = map (\<lambda>(product, quantity). [AddToCart product quantity]) calls"

definition requested :: "(product \<times> int option) list \<Rightarrow> string \<Rightarrow> int" where
  "requested calls p =
     sum_list (map (\<lambda>(product, quantity). default_quantity quantity)
                   (filter (\<lambda>(product, quantity). product_id product = p) calls))"

definition magnitude :: "(product \<times> int option) list \<Rightarrow> int" where
  "magnitude calls = sum_list (map (\<lambda>(product, quantity). \<bar>default_quantity quantity\<bar>) calls)"

definition line_items :: "jsval list \<Rightarrow> string \<Rightarrow> jsval list" where
  "line_items items p = filter (\<lambda>item. has_productId item p) items"

text \<open>
  The items that \<open>addToCart\<close> builds from integer quantities: objects whose \<open>productId\<close> is
  a string and whose \<open>quantity\<close> is an integer, read by \<open>pid_of\<close> and \<open>qty_of\<close>.
\<close>

definition is_line_item :: "jsval \<Rightarrow> bool" where
  "is_line_item item =
     (case get_prop item ''productId'' of
        Inr (JStr p) \<Rightarrow>
          (case get_prop item ''quantity'' of Inr (JNum n) \<Rightarrow> n = of_int \<lfloor>n\<rfloor> | _ \<Rightarrow> False)
      | _ \<Rightarrow> False)"

definition pid_of :: "jsval \<Rightarrow> string" where
  "pid_of item = (case get_prop item ''productId'' of Inr (JStr p) \<Rightarrow> p | _ \<Rightarrow> [])"

definition qty_of :: "jsval \<Rightarrow> int" where
  "qty_of item = (case get_prop item ''quantity'' of Inr (JNum n) \<Rightarrow> \<lfloor>n\<rfloor> | _ \<Rightarrow> 0)"

definition qty :: "jsval list \<Rightarrow> string \<Rightarrow> int" where
  "qty items p = sum_list (map qty_of (filter (\<lambda>item. pid_of item = p) items))"

definition items_magnitude :: "jsval list \<Rightarrow> int" where
  "items_magnitude items = sum_list (map (\<lambda>item. \<bar>qty_of item\<bar>) items)"

text \<open>
  The items whose \<open>price\<close> and \<open>quantity\<close> are finite numbers, read by \<open>price_of\<close> and
  \<open>quantity_of\<close>.
\<close>

definition is_priced_item :: "jsval \<Rightarrow> bool" where
  "is_priced_item item =
     (case get_prop item ''price'' of
        Inr (JNum p) \<Rightarrow> (case get_prop item ''quantity'' of Inr (JNum q) \<Rightarrow> True | _ \<Rightarrow> False)
      | _ \<Rightarrow> False)"

definition price_of :: "jsval \<Rightarrow> rat" where
  "price_of item = (case get_prop item ''price'' of Inr (JNum p) \<Rightarrow> p | _ \<Rightarrow> 0)"

definition quantity_of :: "jsval \<Rightarrow> rat" where
  "quantity_of item = (case get_prop item ''quantity'' of Inr (JNum q) \<Rightarrow> q | _ \<Rightarrow> 0)"

text \<open>The values whose \<open>typeof\<close> is \<open>number\<close>.\<close>

fun is_number :: "jsval \<Rightarrow> bool" where
  "is_number (JNum x) = True"
| "is_number JNaN = True"
| "is_number JInfinity = True"
| "is_number JNegInfinity = True"
| "is_number v = False"

subsection \<open>The invariant of the data model\<close>

text \<open>The value is an array and no two of its elements have the same \<open>productId\<close>.\<close>

definition unique_productIds :: "jsval \<Rightarrow> bool" where
  "unique_productIds v =
     (case v of
        JArr items \<Rightarrow> distinct (map (\<lambda>item. get_prop item ''productId'') items)
      | _ \<Rightarrow> False)"

subsection \<open>Sample data\<close>

text \<open>
  Two products, a third that carries the id of the first with other field values, a
  fourth whose price is the double written \<open>9.995\<close>, and a fifth whose price is \<open>10^21\<close>.
\<close>

definition product_p1 :: product where
  "product_p1 =
     \<lparr>product_id = ''p1'', title = JStr ''A'', price = JNum 5, imageUrl = JStr ''x'',
      stock = JNum 3\<rparr>"

definition product_p2 :: product where
  "product_p2 =
     \<lparr>product_id = ''p2'', title = JStr ''B'', price = JNum 7, imageUrl = JStr ''y'',
      stock = JNum 1\<rparr>"

definition product_p1_changed :: product where
  "product_p1_changed =
     \<lparr>product_id = ''p1'', title = JStr ''A2'', price = JNum 6, imageUrl = JStr ''z'',
      stock = JNum 0\<rparr>"

definition product_p3 :: product where
  "product_p3 =
     \<lparr>product_id = ''p3'', title = JStr ''C'',
      price = JNum (5626684784446013 / 562949953421312), imageUrl = JStr ''w'',
      stock = JNum 9\<rparr>"

definition product_p4 :: product where
  "product_p4 =
     \<lparr>product_id = ''p4'', title = JStr ''D'', price = JNum 1000000000000000000000,
      imageUrl = JStr ''v'', stock = JNum 1\<rparr>"

text \<open>
  Texts of carts, and the values \<open>JSON.parse\<close> gives for them: a cart of one item, a cart
  that repeats a product id, a cart whose quantity is a string, and a cart whose item has
  no price.
\<close>

definition p1_text :: "string \<Rightarrow> string" where
  \<open>p1_text quantity =
     ''{"productId":"p1","title":"A","price":5,"imageUrl":"x","stock":3,"quantity":'' @
     quantity @ ''}''\<close>

definition p2_text :: "string \<Rightarrow> string" where
  \<open>p2_text quantity =
     ''{"productId":"p2","title":"B","price":7,"imageUrl":"y","stock":1,"quantity":'' @
     quantity @ ''}''\<close>

definition one_item_text :: string where
  \<open>one_item_text =
     ''[{"productId":"p1","title":"A","price":5,"imageUrl":"x","stock":3,"quantity":2}]''\<close>

definition duplicate_text :: string where
  \<open>duplicate_text =
     ''[{"productId":"p1","title":"A","price":5,"imageUrl":"x","stock":3,"quantity":1},'' @
     ''{"productId":"p1","title":"A","price":5,"imageUrl":"x","stock":3,"quantity":2}]''\<close>

definition duplicate_items :: jsval where
  "duplicate_items = JArr [newItem product_p1 1, newItem product_p1 2]"

definition text_quantity_text :: string where
  \<open>text_quantity_text =
     ''[{"productId":"p1","title":"A","price":5,"imageUrl":"x","stock":3,"quantity":"x"}]''\<close>

definition text_quantity_items :: jsval where
  "text_quantity_items =
     JArr [JObj [(''productId'', JStr ''p1''), (''title'', JStr ''A''), (''price'', JNum 5),
                 (''imageUrl'', JStr ''x''), (''stock'', JNum 3), (''quantity'', JStr ''x'')]]"

definition no_price_text :: string where
  \<open>no_price_text = ''[{"productId":"p1","quantity":2}]''\<close>

definition no_price_items :: jsval where
  "no_price_items = JArr [JObj [(''productId'', JStr ''p1''), (''quantity'', JNum 2)]]"

text \<open>
  The host's functions in the examples. \<open>parse_sample\<close> agrees with \<open>JSON.parse\<close> at the
  seven texts it names, at the empty text and at the text \<open>not json\<close>, on both of which
  \<open>JSON.parse\<close> throws; \<open>stringify_sample\<close> agrees with \<open>JSON.stringify\<close> at the eleven
  values of its table; \<open>string_to_number_sample\<close> agrees with the conversion of a string
  to a number at the texts \<open>5\<close> and \<open>x\<close>. The examples use them at these arguments only.
\<close>

definition parse_sample :: "string \<Rightarrow> jsval option" where
  "parse_sample s =
     (if s = one_item_text then Some (JArr [newItem product_p1 2])
      else if s = duplicate_text then Some duplicate_items
      else if s = text_quantity_text then Some text_quantity_items
      else if s = no_price_text then Some no_price_items
      else if s = ''[]'' then Some (JArr [])
      else if s = ''5'' then Some (JNum 5)
      else if s = ''{}'' then Some (JObj [])
      else None)"

definition stringify_table :: "(jsval \<times> string) list" where
  "stringify_table =
     [(JArr [], ''[]''),
      (JArr [newItem product_p1 2], ''['' @ p1_text ''2'' @ '']''),
      (JArr [newItem product_p1 2, newItem product_p2 1],
       ''['' @ p1_text ''2'' @ '','' @ p2_text ''1'' @ '']''),
      (JArr [newItem product_p1 7, newItem product_p2 1],
       ''['' @ p1_text ''7'' @ '','' @ p2_text ''1'' @ '']''),
      (JArr [newItem product_p1 7], ''['' @ p1_text ''7'' @ '']''),
      (JArr [newItem product_p1 8], ''['' @ p1_text ''8'' @ '']''),
      (duplicate_items, duplicate_text),
      (text_quantity_items, text_quantity_text),
      (no_price_items, no_price_text),
      (JNum 5, ''5''),
      (JObj [], ''{}'')]"

definition stringify_sample :: "jsval \<Rightarrow> string" where
  "stringify_sample v = (case map_of stringify_table v of Some text \<Rightarrow> text | None \<Rightarrow> [])"

definition string_to_number_sample :: "string \<Rightarrow> jsval" where
  "string_to_number_sample s = (if s = ''5'' then JNum 5 else JNaN)"

text \<open>
  Storage contents: a corrupted entry, the empty text, a cart, a cart with a repeated id,
  a number, a cart with a string for a quantity, a cart whose item has no price.
\<close>

definition corrupt_storage :: "string \<rightharpoonup> string" where
  "corrupt_storage = Map.empty(''cartItems'' \<mapsto> ''not json'')"

definition empty_text_storage :: "string \<rightharpoonup> string" where
  "empty_text_storage = Map.empty(''cartItems'' \<mapsto> [])"

definition one_item_storage :: "string \<rightharpoonup> string" where
  "one_item_storage = Map.empty(''cartItems'' \<mapsto> one_item_text)"

definition duplicate_storage :: "string \<rightharpoonup> string" where
  "duplicate_storage = Map.empty(''cartItems'' \<mapsto> duplicate_text)"

definition number_storage :: "string \<rightharpoonup> string" where
  "number_storage = Map.empty(''cartItems'' \<mapsto> ''5'')"

definition text_quantity_storage :: "string \<rightharpoonup> string" where
  "text_quantity_storage = Map.empty(''cartItems'' \<mapsto> text_quantity_text)"

definition no_price_storage :: "string \<rightharpoonup> string" where
  "no_price_storage = Map.empty(''cartItems'' \<mapsto> no_price_text)"

section \<open>Properties\<close>

subsection \<open>Rounding to a double\<close>

lemma log2_up_bounds: "1 \<le> x \<Longrightarrow> 2 ^ log2_up x \<le> x \<and> x < 2 ^ Suc (log2_up x)"
proof (induction x rule: log2_up.induct)
  case (1 x)
  show ?case
  proof (cases "x < 2")
    case True
    with "1.prems" show ?thesis by (simp add: log2_up.simps [of x])
  next
    case False
    then have "1 \<le> x / 2" by simp
    with "1.IH" False have "2 ^ log2_up (x / 2) \<le> x / 2 \<and> x / 2 < 2 ^ Suc (log2_up (x / 2))"
      by simp
    with False show ?thesis by (simp add: log2_up.simps [of x])
  qed
qed

lemma log2_down_bounds:
  "0 < x \<Longrightarrow> x < 1 \<Longrightarrow> 1 \<le> 2 ^ log2_down x * x \<and> 2 ^ log2_down x * x < 2"
proof (induction x rule: log2_down.induct)
  case (1 x)
  show ?case
  proof (cases "2 * x < 1")
    case True
    with "1.prems" "1.IH" have "1 \<le> 2 ^ log2_down (2 * x) * (2 * x) \<and> 2 ^ log2_down (2 * x) * (2 * x) < 2"
      by simp
    with "1.prems" show ?thesis by (simp add: log2_down.simps [of x] mult.assoc)
  next
    case False
    then have "log2_down (2 * x) = 0" by (simp add: log2_down.simps [of "2 * x"])
    with "1.prems" False show ?thesis by (simp add: log2_down.simps [of x])
  qed
qed

lemma floor_log2_bounds:
  assumes "0 < x"
  shows "2 powi floor_log2 x \<le> x \<and> x < 2 powi (floor_log2 x + 1)"
proof (cases "1 \<le> x")
  case True
  from log2_up_bounds [OF True] have "2 ^ log2_up x \<le> x" "x < 2 ^ Suc (log2_up x)" by simp_all
  moreover have "int (log2_up x) + 1 = int (Suc (log2_up x))" by simp
  ultimately show ?thesis using True
    by (simp only: floor_log2_def if_True power_int_of_nat)
next
  case False
  with assms have x: "0 < x" "x < 1" by simp_all
  define k where "k = log2_down x"
  from log2_down_bounds [OF x] have b: "1 \<le> 2 ^ k * x" "2 ^ k * x < 2" by (simp_all add: k_def)
  have p1: "(2::rat) powi (- int k) = 1 / 2 ^ k"
    by (simp add: power_int_minus divide_inverse)
  have "(2::rat) powi (- int k + 1) = 2 powi (- int k) * 2 powi 1"
    by (rule power_int_add) simp
  with p1 have p2: "(2::rat) powi (- int k + 1) = 2 / 2 ^ k" by simp
  have pos: "(0::rat) < 2 ^ k" by simp
  from b have "1 \<le> x * 2 ^ k" "x * 2 ^ k < 2" by (simp_all only: mult.commute [of x])
  then have "1 / 2 ^ k \<le> x" "x < 2 / 2 ^ k"
    by (simp_all only: pos_divide_le_eq [OF pos] pos_less_divide_eq [OF pos])
  with False p1 p2 show ?thesis by (simp add: floor_log2_def k_def)
qed

lemma floor_log2_eq:
  assumes "0 < x" and "2 powi e \<le> x" and "x < 2 powi (e + 1)"
  shows "floor_log2 x = e"
proof -
  let ?f = "floor_log2 x"
  from floor_log2_bounds [OF assms(1)] have f: "2 powi ?f \<le> x" "x < 2 powi (?f + 1)" by simp_all
  have "(2::rat) powi e < 2 powi (?f + 1)" using assms(2) f(2) by simp
  then have "e < ?f + 1"
    using power_int_increasing [of "?f + 1" e "2::rat"] by (cases "e < ?f + 1") auto
  moreover have "(2::rat) powi ?f < 2 powi (e + 1)" using assms(3) f(1) by simp
  then have "?f < e + 1"
    using power_int_increasing [of "e + 1" ?f "2::rat"] by (cases "?f < e + 1") auto
  ultimately show ?thesis by simp
qed

lemma round_half_even_int: "round_half_even (of_int n) = n"
  by (simp add: round_half_even_def)

lemma round_double_pos:
  assumes "0 < x" and "2 powi e \<le> x" and "x < 2 powi (e + 1)" and "- 1022 \<le> e"
  shows "round_double x =
           (let y = of_int (round_half_even (x / 2 powi (e - 52))) * 2 powi (e - 52)
            in if 2 ^ 1024 \<le> y then JInfinity else JNum y)"
proof -
  from assms(1-3) have "floor_log2 x = e" by (rule floor_log2_eq)
  with assms(1,4) show ?thesis
    by (simp add: round_double_def Let_def max_def)
qed

lemma round_double_neg: "x \<noteq> 0 \<Longrightarrow> round_double (- x) =
    (case round_double x of JNum y \<Rightarrow> JNum (- y) | JInfinity \<Rightarrow> JNegInfinity
       | JNegInfinity \<Rightarrow> JInfinity | v \<Rightarrow> v)"
  by (simp add: round_double_def Let_def)

lemma round_double_nat:
  assumes "0 < n" and "n \<le> 2 ^ 53"
  shows "round_double (of_nat n) = JNum (of_nat n)"
proof -
  let ?x = "of_nat n :: rat"
  let ?e = "floor_log2 ?x"
  from assms(1) have pos: "0 < ?x" by simp
  from floor_log2_bounds [OF pos] have b: "2 powi ?e \<le> ?x" "?x < 2 powi (?e + 1)" by simp_all
  from assms(1) have "1 \<le> ?x" by simp
  with b(2) have "(2::rat) powi 0 < 2 powi (?e + 1)" by simp
  then have e0: "0 \<le> ?e"
    using power_int_increasing [of "?e + 1" 0 "2::rat"] by (cases "0 \<le> ?e") auto
  have le: "?x \<le> 2 ^ 53"
    using assms(2) by (metis of_nat_le_iff of_nat_numeral of_nat_power)
  with b(1) have "(2::rat) powi ?e \<le> 2 powi 53" by simp
  then have e53: "?e \<le> 53"
    using power_int_strict_increasing [of 53 ?e "2::rat"] by (cases "?e \<le> 53") auto
  have "\<exists>m::int. ?x / 2 powi (?e - 52) = of_int m"
  proof (cases "?e \<le> 52")
    case True
    then have "(2::rat) powi (?e - 52) = 1 / 2 ^ nat (52 - ?e)"
      by (simp add: power_int_def field_simps)
    then have "?x / 2 powi (?e - 52) = of_int (int n * 2 ^ nat (52 - ?e))" by simp
    then show ?thesis by blast
  next
    case False
    with e53 have e: "?e = 53" by simp
    with b(1) le have "?x = 2 ^ 53" by simp
    with e have "?x / 2 powi (?e - 52) = of_int (2 ^ 52)" by simp
    then show ?thesis by blast
  qed
  then obtain m :: int where m: "?x / 2 powi (?e - 52) = of_int m" ..
  then have y: "of_int (round_half_even (?x / 2 powi (?e - 52))) * 2 powi (?e - 52) = ?x"
    by (simp add: round_half_even_int) (metis m nonzero_divide_eq_eq power_int_eq_0_iff zero_neq_numeral)
  have "?x < 2 ^ 1024" using le by (rule le_less_trans) simp
  with y e0 b show ?thesis
    using round_double_pos [OF pos b] by (simp add: Let_def)
qed

lemma round_double_int:
  assumes "\<bar>n\<bar> \<le> 2 ^ 53"
  shows "round_double (of_int n) = JNum (of_int n)"
proof (cases "n = 0")
  case True
  then show ?thesis by (simp add: round_double_def)
next
  case False
  define k where "k = nat \<bar>n\<bar>"
  from False assms have k: "0 < k" "k \<le> 2 ^ 53"
    by (simp_all add: k_def nat_le_iff)
  from round_double_nat [OF k] have r: "round_double (of_nat k) = JNum (of_nat k)" .
  show ?thesis
  proof (cases "0 < n")
    case True
    then have "(of_int n :: rat) = of_nat k" by (simp add: k_def)
    with r show ?thesis by simp
  next
    case neg: False
    with False have "(of_int n :: rat) = - of_nat k" by (simp add: k_def)
    moreover from k have "(of_nat k :: rat) \<noteq> 0" by simp
    ultimately show ?thesis using r by (simp add: round_double_neg)
  qed
qed

lemma round_double_numeral:
  "numeral k \<le> (2::int) ^ 53 \<Longrightarrow> round_double (numeral k) = JNum (numeral k)"
  "numeral k \<le> (2::int) ^ 53 \<Longrightarrow> round_double (- numeral k) = JNum (- numeral k)"
  "round_double 0 = JNum 0" "round_double 1 = JNum 1" "round_double (- 1) = JNum (- 1)"
  using round_double_int [of "numeral k"] round_double_int [of "- numeral k"]
    round_double_int [of 0] round_double_int [of 1] round_double_int [of "- 1"]
  by simp_all

lemma round_half_even_half: "round_half_even (of_int m + 1 / 2) = (if even m then m else m + 1)"
proof -
  have "\<lfloor>of_int m + 1 / 2 :: rat\<rfloor> = m" by linarith
  then show ?thesis by (simp add: round_half_even_def Let_def)
qed

lemma round_double_2_53_1: "round_double (2 ^ 53 + 1) = JNum (2 ^ 53)"
proof -
  have "(2 ^ 53 + 1) / 2 powi (53 - 52) = (of_int (2 ^ 52) + 1 / 2 :: rat)" by simp
  then have "round_half_even ((2 ^ 53 + 1) / 2 powi (53 - 52)) = 2 ^ 52"
    by (simp only: round_half_even_half) simp
  then show ?thesis
    using round_double_pos [of "2 ^ 53 + 1" 53] by (simp add: Let_def)
qed

lemma floor_rat_numeral:
  "\<lfloor>numeral a / numeral b :: rat\<rfloor> = numeral a div numeral b"
  "\<lfloor>- (numeral a / numeral b) :: rat\<rfloor> = - numeral a div numeral b"
  using floor_divide_of_int_eq [of "numeral a" "numeral b", where 'a = rat]
    floor_divide_of_int_eq [of "- numeral a" "numeral b", where 'a = rat]
  by simp_all

lemma show_nat_small: "n < 10 \<Longrightarrow> show_nat n = [digit_char n]"
  by (simp add: show_nat.simps)

lemma show_nat_step: "10 \<le> n \<Longrightarrow> show_nat n = show_nat (n div 10) @ [digit_char (n mod 10)]"
  by (subst show_nat.simps) simp

lemmas sample_texts =
  one_item_text_def duplicate_text_def text_quantity_text_def no_price_text_def

subsection \<open>Callbacks that do not throw\<close>

lemma productId_neq_readable:
  "readable x \<Longrightarrow> productId_neq p x = Inr (\<not> has_productId x p)"
  by (cases x) (auto simp: productId_neq_def has_productId_def)

lemma productId_eq_readable:
  "readable x \<Longrightarrow> productId_eq p x = Inr (has_productId x p)"
  by (cases x) (auto simp: productId_eq_def has_productId_def)

lemma filter_js_pure:
  "\<forall>x \<in> set xs. p x = Inr (q x) \<Longrightarrow> filter_js p xs = Inr (filter q xs)"
  by (induction xs) auto

lemma map_js_pure:
  "\<forall>x \<in> set xs. \<forall>i. f x i = Inr (g x) \<Longrightarrow> map_js f n xs = Inr (map g xs)"
  by (induction xs arbitrary: n) auto

lemma findIndex_none:
  "\<forall>x \<in> set xs. p x = Inr False \<Longrightarrow> findIndex p xs = Inr (- 1)"
  by (induction xs) auto

lemma findIndex_first:
  "\<forall>x \<in> set pre. p x = Inr False \<Longrightarrow> p y = Inr True \<Longrightarrow>
     findIndex p (pre @ y # post) = Inr (int (length pre))"
  by (induction pre) auto

lemma filter_unique:
  "distinct (map f xs) \<Longrightarrow> length (filter (\<lambda>x. f x = c) xs) \<le> 1"
  by (induction xs) (auto simp: filter_empty_conv image_iff)

lemma removeFromCart_filter:
  assumes "list_all readable items"
  shows "removeFromCart (JArr items) p =
           Inr (JArr (filter (\<lambda>item. \<not> has_productId item p) items))"
proof -
  from assms have "\<forall>x \<in> set items. productId_neq p x = Inr (\<not> has_productId x p)"
    by (simp add: list_all_iff productId_neq_readable)
  then have "filter_js (productId_neq p) items =
               Inr (filter (\<lambda>item. \<not> has_productId item p) items)"
    by (rule filter_js_pure)
  then show ?thesis by (simp add: removeFromCart_def)
qed

subsection \<open>Object literals with a spread\<close>

lemma map_of_set_prop_same: "map_of (set_prop kvs k v) k = Some v"
proof (cases "k \<in> fst ` set kvs")
  case True
  have "k \<in> fst ` set xs \<Longrightarrow>
          map_of (map (\<lambda>(k', v'). if k' = k then (k', v) else (k', v')) xs) k = Some v" for xs
    by (induction xs) auto
  with True show ?thesis by (simp add: set_prop_def)
next
  case False
  then have "map_of kvs k = None" by (simp add: map_of_eq_None_iff)
  with False show ?thesis by (simp add: set_prop_def map_add_def)
qed

lemma map_of_set_prop_other:
  assumes "k' \<noteq> k"
  shows "map_of (set_prop kvs k v) k' = map_of kvs k'"
proof -
  have "map_of (map (\<lambda>(a, b). if a = k then (a, v) else (a, b)) xs) k' = map_of xs k'" for xs
    using assms by (induction xs) auto
  moreover have "map_of (kvs @ [(k, v)]) k' = map_of kvs k'"
    using assms by (simp add: map_add_def split: option.splits)
  ultimately show ?thesis by (simp add: set_prop_def)
qed

lemma has_productId_obj: "has_productId item p \<Longrightarrow> \<exists>kvs. item = JObj kvs"
  by (cases item) (auto simp: has_productId_def)

lemma get_prop_with_quantity_same:
  "get_prop (with_quantity item v) ''quantity'' = Inr v"
  by (simp add: with_quantity_def map_of_set_prop_same)

lemma get_prop_with_quantity_other:
  assumes "has_productId item p" "k \<noteq> ''quantity''"
  shows "get_prop (with_quantity item v) k = get_prop item k"
proof -
  from assms(1) obtain kvs where "item = JObj kvs" by (auto dest: has_productId_obj)
  with assms(2) show ?thesis by (simp add: with_quantity_def map_of_set_prop_other)
qed

lemma set_quantity_readable:
  "readable x \<Longrightarrow>
     set_quantity p n x = Inr (if has_productId x p then with_quantity x (JNum (of_int n)) else x)"
  by (simp add: set_quantity_def productId_eq_readable)

lemma updateQuantity_map:
  assumes "list_all readable items"
  shows "updateQuantity (JArr items) p n =
           Inr (JArr (map (\<lambda>item. if has_productId item p then with_quantity item (JNum (of_int n)) else item) items))"
proof -
  from assms have "\<forall>x \<in> set items. \<forall>i::int. set_quantity p n x =
      Inr (if has_productId x p then with_quantity x (JNum (of_int n)) else x)"
    by (simp add: list_all_iff set_quantity_readable)
  then have "map_js (\<lambda>item index. set_quantity p n item) 0 items =
      Inr (map (\<lambda>item. if has_productId item p then with_quantity item (JNum (of_int n)) else item) items)"
    by (rule map_js_pure)
  then show ?thesis by (simp add: updateQuantity_def)
qed

subsection \<open>The two branches of \<open>addToCart\<close>\<close>

lemma map_js_id_after:
  "\<forall>i \<ge> m. i \<noteq> c \<Longrightarrow>
     map_js (\<lambda>item index. if index = c then F item else Inr item) m xs = Inr xs"
  by (induction xs arbitrary: m) auto

lemma map_js_at:
  "c = m + int (length pre) \<Longrightarrow>
     map_js (\<lambda>item index. if index = c then F item else Inr item) m (pre @ y # post) =
       (case F y of Inl e \<Rightarrow> Inl e | Inr y' \<Rightarrow> Inr (pre @ y' # post))"
proof (induction pre arbitrary: m)
  case Nil
  then have "map_js (\<lambda>item index. if index = c then F item else Inr item) (m + 1) post = Inr post"
    by (intro map_js_id_after) simp
  with Nil show ?case by (simp split: sum.splits)
next
  case (Cons a pre)
  from Cons.prems have "c = (m + 1) + int (length pre)" and "m \<noteq> c" by simp_all
  with Cons.IH [of "m + 1"] show ?case by (simp split: sum.splits)
qed

lemma js_add_numbers: "js_add (JNum a) (JNum b) = Inr (round_double (a + b))"
  by (simp add: js_add_def)

lemma add_quantity_number:
  "get_prop item ''quantity'' = Inr (JNum n) \<Longrightarrow>
     add_quantity q item = Inr (with_quantity item (round_double (n + of_int q)))"
  by (simp add: add_quantity_def js_add_numbers)

lemma add_quantity_exact:
  assumes "get_prop item ''quantity'' = Inr (JNum (of_int n))" and "\<bar>n + q\<bar> \<le> 2 ^ 53"
  shows "add_quantity q item = Inr (with_quantity item (JNum (of_int (n + q))))"
proof -
  have "round_double (of_int n + of_int q) = JNum (of_int (n + q))"
    using round_double_int [OF assms(2)] by simp
  with assms(1) show ?thesis by (simp add: add_quantity_number)
qed

lemma addToCart_found:
  assumes "list_all readable pre"
    and "\<not> list_ex (\<lambda>x. has_productId x (product_id product)) pre"
    and "has_productId item (product_id product)"
  shows "addToCart (JArr (pre @ item # post)) product quantity =
           (case add_quantity (default_quantity quantity) item of
              Inl e \<Rightarrow> Inl e
            | Inr item' \<Rightarrow> Inr (JArr (pre @ item' # post)))"
proof -
  let ?p = "productId_eq (product_id product)"
  from assms(1,2) have "\<forall>x \<in> set pre. ?p x = Inr False"
    by (simp add: list_all_iff list_ex_iff productId_eq_readable)
  moreover from assms(3) have "?p item = Inr True"
    by (simp add: productId_eq_def has_productId_def)
  ultimately have "findIndex ?p (pre @ item # post) = Inr (int (length pre))"
    by (rule findIndex_first)
  moreover have "map_js (\<lambda>x index. if index = int (length pre)
                     then add_quantity (default_quantity quantity) x else Inr x) 0
                   (pre @ item # post) =
      (case add_quantity (default_quantity quantity) item of
         Inl e \<Rightarrow> Inl e | Inr y' \<Rightarrow> Inr (pre @ y' # post))"
    by (rule map_js_at) simp
  ultimately show ?thesis
    by (simp add: addToCart_def Let_def split: sum.splits)
qed

lemma addToCart_not_found:
  assumes "list_all readable items"
    and "\<not> list_ex (\<lambda>x. has_productId x (product_id product)) items"
  shows "addToCart (JArr items) product quantity =
           Inr (JArr (items @ [newItem product (default_quantity quantity)]))"
proof -
  from assms have "\<forall>x \<in> set items. productId_eq (product_id product) x = Inr False"
    by (simp add: list_all_iff list_ex_iff productId_eq_readable)
  then have "findIndex (productId_eq (product_id product)) items = Inr (- 1)"
    by (rule findIndex_none)
  then show ?thesis by (simp add: addToCart_def Let_def)
qed

subsection \<open>removeFromCart\<close>

text \<open>
  C7. On a cart whose elements are all readable, \<open>removeFromCart(productId)\<close> throws
  nothing and sets the cart to the items whose \<open>productId\<close> differs, unchanged and in their
  order; the items removed are those with that \<open>productId\<close>, at most one when product ids
  are unique in the cart; and when no item has that \<open>productId\<close> the cart is as it was.
\<close>

theorem removeFromCart_removes_matching:
  assumes "list_all readable items"
  shows "removeFromCart (JArr items) productId =
           Inr (JArr (filter (\<lambda>item. \<not> has_productId item productId) items))
         \<and> (unique_productIds (JArr items) \<longrightarrow>
              length (filter (\<lambda>item. has_productId item productId) items) \<le> 1)
         \<and> (\<not> list_ex (\<lambda>item. has_productId item productId) items \<longrightarrow>
              removeFromCart (JArr items) productId = Inr (JArr items))"
proof (intro conjI impI)
  show eq: "removeFromCart (JArr items) productId =
              Inr (JArr (filter (\<lambda>item. \<not> has_productId item productId) items))"
    using assms by (rule removeFromCart_filter)
  show "length (filter (\<lambda>item. has_productId item productId) items) \<le> 1"
    if "unique_productIds (JArr items)"
    using that filter_unique [of "\<lambda>item. get_prop item ''productId''" items "Inr (JStr productId)"]
    by (simp add: unique_productIds_def has_productId_def)
  show "removeFromCart (JArr items) productId = Inr (JArr items)"
    if "\<not> list_ex (\<lambda>item. has_productId item productId) items"
  proof -
    from that have "filter (\<lambda>item. \<not> has_productId item productId) items = items"
      by (simp add: list_ex_iff filter_id_conv)
    with eq show ?thesis by simp
  qed
qed

theorem removeFromCart_removes_matching_witness:
  "list_all readable [newItem product_p1 2, newItem product_p2 1]
   \<and> removeFromCart (JArr [newItem product_p1 2, newItem product_p2 1]) ''p1'' =
       Inr (JArr [newItem product_p2 1])
   \<and> unique_productIds (JArr [newItem product_p1 2, newItem product_p2 1])
   \<and> \<not> list_ex (\<lambda>item. has_productId item ''p3'') [newItem product_p1 2, newItem product_p2 1]
   \<and> removeFromCart (JArr [newItem product_p1 2, newItem product_p2 1]) ''p3'' =
       Inr (JArr [newItem product_p1 2, newItem product_p2 1])"
proof -
  have r: "list_all readable [newItem product_p1 2, newItem product_p2 1]"
    by (simp add: newItem_def)
  show ?thesis
    using r removeFromCart_removes_matching [OF r, of "''p1''"]
      removeFromCart_removes_matching [OF r, of "''p3''"]
    by (simp add: newItem_def product_p1_def product_p2_def has_productId_def
        unique_productIds_def)
qed

subsection \<open>updateQuantity\<close>

text \<open>
  C6. On a cart whose elements are all readable, \<open>updateQuantity(productId, newQuantity)\<close>
  throws nothing and, for every integer \<open>newQuantity\<close>, zero and negative ones included, maps
  each item with that \<open>productId\<close> to a copy whose \<open>quantity\<close> is \<open>newQuantity\<close> itself and
  whose other properties are as before, and every other item to itself: no item is removed
  and no bound is checked. When no item has that \<open>productId\<close> the cart is as it was.
\<close>

theorem updateQuantity_sets_verbatim:
  assumes "list_all readable items"
  shows "updateQuantity (JArr items) productId newQuantity =
           Inr (JArr (map (\<lambda>item. if has_productId item productId
                                   then with_quantity item (JNum (of_int newQuantity)) else item) items))
         \<and> (\<forall>item k. has_productId item productId \<longrightarrow>
               get_prop (with_quantity item (JNum (of_int newQuantity))) ''quantity'' = Inr (JNum (of_int newQuantity))
               \<and> (k \<noteq> ''quantity'' \<longrightarrow>
                    get_prop (with_quantity item (JNum (of_int newQuantity))) k = get_prop item k))
         \<and> (\<not> list_ex (\<lambda>item. has_productId item productId) items \<longrightarrow>
               updateQuantity (JArr items) productId newQuantity = Inr (JArr items))"
proof (intro conjI allI impI)
  show eq: "updateQuantity (JArr items) productId newQuantity =
           Inr (JArr (map (\<lambda>item. if has_productId item productId
                                   then with_quantity item (JNum (of_int newQuantity)) else item) items))"
    using assms by (rule updateQuantity_map)
  show "get_prop (with_quantity item (JNum (of_int newQuantity))) ''quantity'' = Inr (JNum (of_int newQuantity))"
    for item
    by (rule get_prop_with_quantity_same)
  show "get_prop (with_quantity item (JNum (of_int newQuantity))) k = get_prop item k"
    if "has_productId item productId" "k \<noteq> ''quantity''" for item k
    using that by (rule get_prop_with_quantity_other)
  show "updateQuantity (JArr items) productId newQuantity = Inr (JArr items)"
    if "\<not> list_ex (\<lambda>item. has_productId item productId) items"
  proof -
    from that have "map (\<lambda>item. if has_productId item productId
                                   then with_quantity item (JNum (of_int newQuantity)) else item) items = items"
      by (simp add: list_ex_iff map_idI)
    with eq show ?thesis by simp
  qed
qed

theorem updateQuantity_sets_verbatim_witness:
  "list_all readable [newItem product_p1 2, newItem product_p2 1]
   \<and> updateQuantity (JArr [newItem product_p1 2, newItem product_p2 1]) ''p2'' (- 4) =
       Inr (JArr [newItem product_p1 2, newItem product_p2 (- 4)])
   \<and> updateQuantity (JArr [newItem product_p1 2, newItem product_p2 1]) ''p1'' 0 =
       Inr (JArr [newItem product_p1 0, newItem product_p2 1])
   \<and> has_productId (newItem product_p2 1) ''p2''
   \<and> get_prop (with_quantity (newItem product_p2 1) (JNum (- 4))) ''price'' = Inr (JNum 7)
   \<and> \<not> list_ex (\<lambda>item. has_productId item ''p3'') [newItem product_p1 2, newItem product_p2 1]
   \<and> updateQuantity (JArr [newItem product_p1 2, newItem product_p2 1]) ''p3'' 9 =
       Inr (JArr [newItem product_p1 2, newItem product_p2 1])"
proof -
  have r: "list_all readable [newItem product_p1 2, newItem product_p2 1]"
    by (simp add: newItem_def)
  show ?thesis
    using r updateQuantity_sets_verbatim [OF r, of "''p2''" "- 4"]
      updateQuantity_sets_verbatim [OF r, of "''p1''" 0]
      updateQuantity_sets_verbatim [OF r, of "''p3''" 9]
    by (simp add: newItem_def product_p1_def product_p2_def has_productId_def
        with_quantity_def set_prop_def)
qed

subsection \<open>The operations keep product ids unique\<close>

lemma productId_eq_Inr:
  "productId_eq p x = Inr b \<Longrightarrow> readable x \<and> (b \<longleftrightarrow> has_productId x p)"
  by (cases x) (auto simp: productId_eq_def has_productId_def)

lemma findIndex_found:
  "findIndex p xs = Inr i \<Longrightarrow> i > - 1 \<Longrightarrow>
     \<exists>pre y post. xs = pre @ y # post \<and> i = int (length pre) \<and> p y = Inr True
        \<and> (\<forall>x \<in> set pre. p x = Inr False)"
proof (induction xs arbitrary: i)
  case Nil
  then show ?case by simp
next
  case (Cons a xs)
  from Cons.prems(1) obtain b where b: "p a = Inr b"
    by (cases "p a") auto
  show ?case
  proof (cases b)
    case True
    with b have "a # xs = [] @ a # xs \<and> (0::int) = int (length ([]::jsval list)) \<and> p a = Inr True
        \<and> (\<forall>x \<in> set []. p x = Inr False)"
      by simp
    moreover from True b Cons.prems(1) have "i = 0" by simp
    ultimately show ?thesis by blast
  next
    case False
    with b Cons.prems(1) obtain j where j: "findIndex p xs = Inr j"
      and i: "i = (if j > - 1 then j + 1 else - 1)"
      by (cases "findIndex p xs") auto
    from i Cons.prems(2) have "j > - 1" and ij: "i = j + 1" by (auto split: if_splits)
    from Cons.IH [OF j this(1)]
    obtain pre y post where "xs = pre @ y # post" "j = int (length pre)" "p y = Inr True"
      "\<forall>x \<in> set pre. p x = Inr False"
      by blast
    with False b ij have "a # xs = (a # pre) @ y # post \<and> i = int (length (a # pre))
        \<and> p y = Inr True \<and> (\<forall>x \<in> set (a # pre). p x = Inr False)"
      by simp
    then show ?thesis by blast
  qed
qed

lemma findIndex_not_found:
  "findIndex p xs = Inr i \<Longrightarrow> \<not> i > - 1 \<Longrightarrow> \<forall>x \<in> set xs. p x = Inr False"
proof (induction xs arbitrary: i)
  case Nil
  then show ?case by simp
next
  case (Cons a xs)
  from Cons.prems(1) obtain b where b: "p a = Inr b"
    by (cases "p a") auto
  with Cons.prems have nb: "\<not> b" by (cases b) auto
  with b Cons.prems(1) obtain j where j: "findIndex p xs = Inr j"
    and i: "i = (if j > - 1 then j + 1 else - 1)"
    by (cases "findIndex p xs") auto
  from i Cons.prems(2) have "\<not> j > - 1" by (auto split: if_splits)
  from Cons.IH [OF j this] b nb show ?case by simp
qed

lemma filter_js_Inr:
  "filter_js p xs = Inr ys \<Longrightarrow> ys = filter (\<lambda>x. p x = Inr True) xs"
  by (induction xs arbitrary: ys) (auto split: sum.splits if_splits)

lemma map_js_Inr_map:
  "map_js f n xs = Inr ys \<Longrightarrow> (\<And>x i y. f x i = Inr y \<Longrightarrow> g y = g x) \<Longrightarrow> map g ys = map g xs"
  by (induction xs arbitrary: n ys) (auto split: sum.splits)

lemma add_quantity_Inr:
  "add_quantity q item = Inr item' \<Longrightarrow> \<exists>v. item' = with_quantity item v"
  by (auto simp: add_quantity_def split: sum.splits)

lemma set_quantity_productId:
  assumes "set_quantity p n x = Inr y"
  shows "get_prop y ''productId'' = get_prop x ''productId''"
proof -
  from assms obtain b where b: "productId_eq p x = Inr b"
    and y: "y = (if b then with_quantity x (JNum (of_int n)) else x)"
    by (auto simp: set_quantity_def split: sum.splits)
  show ?thesis
  proof (cases b)
    case True
    with b have "has_productId x p" by (auto dest: productId_eq_Inr)
    then have "get_prop (with_quantity x (JNum (of_int n))) ''productId'' = get_prop x ''productId''"
      by (rule get_prop_with_quantity_other) simp
    with True y show ?thesis by simp
  next
    case False
    with y show ?thesis by simp
  qed
qed

lemma addToCart_unique:
  assumes "unique_productIds v" and "addToCart v product quantity = Inr v'"
  shows "unique_productIds v'"
proof -
  let ?p = "product_id product"
  let ?g = "\<lambda>item. get_prop item ''productId''"
  from assms(1) obtain items where v: "v = JArr items" and d: "distinct (map ?g items)"
    by (cases v) (auto simp: unique_productIds_def)
  from assms(2) v obtain i where i: "findIndex (productId_eq ?p) items = Inr i"
    by (cases "findIndex (productId_eq ?p) items") (auto simp: addToCart_def Let_def)
  show ?thesis
  proof (cases "i > - 1")
    case True
    from findIndex_found [OF i True]
    obtain pre y post where split: "items = pre @ y # post"
      and y: "productId_eq ?p y = Inr True"
      and pre: "\<forall>x \<in> set pre. productId_eq ?p x = Inr False"
      by blast
    from pre have 1: "list_all readable pre"
      and 2: "\<not> list_ex (\<lambda>x. has_productId x ?p) pre"
      by (auto simp: list_all_iff list_ex_iff dest: productId_eq_Inr)
    from y have 3: "has_productId y ?p" by (auto dest: productId_eq_Inr)
    from assms(2) v split addToCart_found [OF 1 2 3, of post quantity]
    obtain y' where y': "add_quantity (default_quantity quantity) y = Inr y'"
      and v': "v' = JArr (pre @ y' # post)"
      by (auto split: sum.splits)
    from y' obtain w where "y' = with_quantity y w" by (auto dest: add_quantity_Inr)
    with 3 have "?g y' = ?g y" by (simp add: get_prop_with_quantity_other)
    with d split v' show ?thesis by (simp add: unique_productIds_def)
  next
    case False
    from findIndex_not_found [OF i False]
    have nf: "\<forall>x \<in> set items. productId_eq ?p x = Inr False" .
    then have 1: "list_all readable items"
      and 2: "\<not> list_ex (\<lambda>x. has_productId x ?p) items"
      by (auto simp: list_all_iff list_ex_iff dest: productId_eq_Inr)
    from assms(2) v addToCart_not_found [OF 1 2, of quantity]
    have v': "v' = JArr (items @ [newItem product (default_quantity quantity)])" by simp
    have "?g (newItem product (default_quantity quantity)) = Inr (JStr ?p)"
      by (simp add: newItem_def)
    moreover from 2 have "Inr (JStr ?p) \<notin> set (map ?g items)"
      by (auto simp: list_ex_iff has_productId_def)
    ultimately show ?thesis using d v' by (simp add: unique_productIds_def)
  qed
qed

lemma removeFromCart_unique:
  assumes "unique_productIds v" and "removeFromCart v p = Inr v'"
  shows "unique_productIds v'"
proof -
  from assms(1) obtain items where v: "v = JArr items"
    and d: "distinct (map (\<lambda>item. get_prop item ''productId'') items)"
    by (cases v) (auto simp: unique_productIds_def)
  from assms(2) v obtain ys where ys: "filter_js (productId_neq p) items = Inr ys"
    and v': "v' = JArr ys"
    by (auto simp: removeFromCart_def split: sum.splits)
  from ys have "ys = filter (\<lambda>x. productId_neq p x = Inr True) items" by (rule filter_js_Inr)
  with d v' show ?thesis by (simp add: unique_productIds_def distinct_map_filter)
qed

lemma updateQuantity_unique:
  assumes "unique_productIds v" and "updateQuantity v p n = Inr v'"
  shows "unique_productIds v'"
proof -
  from assms(1) obtain items where v: "v = JArr items"
    and d: "distinct (map (\<lambda>item. get_prop item ''productId'') items)"
    by (cases v) (auto simp: unique_productIds_def)
  from assms(2) v obtain ys where ys: "map_js (\<lambda>item index. set_quantity p n item) 0 items = Inr ys"
    and v': "v' = JArr ys"
    by (auto simp: updateQuantity_def split: sum.splits)
  from ys have "map (\<lambda>item. get_prop item ''productId'') ys =
                map (\<lambda>item. get_prop item ''productId'') items"
    by (rule map_js_Inr_map) (rule set_quantity_productId)
  with d v' show ?thesis by (simp add: unique_productIds_def)
qed

lemma run_unique:
  "unique_productIds v \<Longrightarrow> run ev v = Inr v' \<Longrightarrow> unique_productIds v'"
proof (cases ev)
  case (AddToCart product quantity)
  assume "unique_productIds v" "run ev v = Inr v'"
  with AddToCart show ?thesis by (auto intro: addToCart_unique)
next
  case (RemoveFromCart p)
  assume "unique_productIds v" "run ev v = Inr v'"
  with RemoveFromCart show ?thesis by (auto intro: removeFromCart_unique)
next
  case (UpdateQuantity p n)
  assume "unique_productIds v" "run ev v = Inr v'"
  with UpdateQuantity show ?thesis by (auto intro: updateQuantity_unique)
next
  case ClearCart
  assume "run ev v = Inr v'"
  with ClearCart show ?thesis by (auto simp: clearCart_def unique_productIds_def)
qed

lemma cartItems_persist: "cartItems (persist stringify st) = cartItems st"
  by (simp add: persist_def)

lemma step_unique:
  "unique_productIds (cartItems st) \<Longrightarrow> unique_productIds (cartItems (step stringify st ev))"
  by (cases "run ev (cartItems st)") (auto simp: step_def cartItems_persist dest: run_unique)

lemma steps_unique:
  "unique_productIds (cartItems st) \<Longrightarrow> unique_productIds (cartItems (steps stringify st evs))"
  unfolding steps_def
  by (induction evs arbitrary: st) (simp_all add: step_unique)

lemma cartItems_mount: "cartItems (mount parse stringify st) = cartItems (restore parse st)"
  by (simp add: mount_def Let_def cartItems_persist)

lemma cartItems_restore:
  "cartItems (restore parse st) =
     (case localStorage st ''cartItems'' of
        None \<Rightarrow> cartItems st
      | Some s \<Rightarrow> if s = [] then cartItems st
                  else (case parse s of Some v \<Rightarrow> v | None \<Rightarrow> cartItems st))"
  by (simp add: restore_def Let_def split: option.splits)

subsection \<open>The effects\<close>

lemma localStorage_step_loading:
  "loading st \<Longrightarrow> localStorage (step stringify st ev) = localStorage st \<and> loading (step stringify st ev)"
  by (cases "run ev (cartItems st)") (simp_all add: step_def persist_def)

lemma localStorage_steps_loading:
  "loading st \<Longrightarrow>
     localStorage (steps stringify st evs) = localStorage st \<and> loading (steps stringify st evs)"
  unfolding steps_def
proof (induction evs arbitrary: st)
  case Nil
  then show ?case by simp
next
  case (Cons ev evs)
  from Cons.prems have "localStorage (step stringify st ev) = localStorage st"
    and l: "loading (step stringify st ev)"
    by (simp_all add: localStorage_step_loading)
  with Cons.IH [OF l] show ?case by simp
qed

lemma loading_restore: "\<not> loading (restore parse st)"
  by (simp add: restore_def Let_def)

lemma localStorage_mount:
  "localStorage (mount parse stringify st) ''cartItems'' =
     Some (stringify (cartItems (mount parse stringify st)))"
  by (simp add: mount_def Let_def persist_def loading_restore)

subsection \<open>The invariant at the reachable states\<close>

text \<open>
  C2, as the spec states it: at every reachable state no two items of the cart have the
  same \<open>productId\<close>. It fails after the restore of a stored array that repeats a
  \<open>productId\<close>, which \<open>restore\<close> assigns as it is.
\<close>

theorem unique_productIds_counterexample:
  "\<not> unique_productIds (cartItems (mount parse_sample stringify_sample (initial duplicate_storage)))"
  by (simp add: cartItems_mount cartItems_restore initial_def duplicate_storage_def
      parse_sample_def sample_texts duplicate_text_def one_item_text_def duplicate_items_def
      unique_productIds_def newItem_def)

text \<open>
  C2, amended. When the value that \<open>restore\<close> parses from storage, if there is one, is an
  array in which no two elements have the same \<open>productId\<close>, the cart is such an array after
  mounting and after every sequence of \<open>addToCart\<close>, \<open>removeFromCart\<close>, \<open>updateQuantity\<close>
  and \<open>clearCart\<close> calls.
\<close>

theorem unique_productIds_reachable:
  assumes "\<forall>s v. stored ''cartItems'' = Some s \<and> parse s = Some v \<longrightarrow> unique_productIds v"
  shows "unique_productIds
           (cartItems (steps stringify (mount parse stringify (initial stored)) events))"
proof -
  have "unique_productIds (cartItems (initial stored))"
    by (simp add: initial_def unique_productIds_def)
  with assms have "unique_productIds (cartItems (restore parse (initial stored)))"
    by (auto simp: cartItems_restore initial_def split: option.splits)
  then have "unique_productIds (cartItems (mount parse stringify (initial stored)))"
    by (simp add: cartItems_mount)
  then show ?thesis by (rule steps_unique)
qed

theorem unique_productIds_reachable_witness:
  "cartItems (steps stringify_sample
         (mount parse_sample stringify_sample (initial one_item_storage))
         [AddToCart product_p2 None, UpdateQuantity ''p1'' 7, RemoveFromCart ''p2'',
          AddToCart product_p1 (Some 1)]) =
       JArr [newItem product_p1 8]
   \<and> unique_productIds (JArr [newItem product_p1 8])"
proof -
  have h: "\<forall>s v. one_item_storage ''cartItems'' = Some s \<and> parse_sample s = Some v \<longrightarrow>
       unique_productIds v"
    by (simp add: one_item_storage_def parse_sample_def sample_texts unique_productIds_def newItem_def)
  have c: "cartItems (steps stringify_sample
         (mount parse_sample stringify_sample (initial one_item_storage))
         [AddToCart product_p2 None, UpdateQuantity ''p1'' 7, RemoveFromCart ''p2'',
          AddToCart product_p1 (Some 1)]) =
       JArr [newItem product_p1 8]"
    by (simp add: steps_def step_def cartItems_persist cartItems_mount cartItems_restore
        initial_def one_item_storage_def parse_sample_def sample_texts one_item_text_def
        addToCart_def removeFromCart_def updateQuantity_def
        productId_eq_def productId_neq_def set_quantity_def add_quantity_def js_add_def round_double_numeral
        with_quantity_def set_prop_def default_quantity_def newItem_def
        product_p1_def product_p2_def)
  show ?thesis
    using c
      unique_productIds_reachable
        [where stored = one_item_storage and parse = parse_sample
           and stringify = stringify_sample
           and events = "[AddToCart product_p2 None, UpdateQuantity ''p1'' 7,
                          RemoveFromCart ''p2'', AddToCart product_p1 (Some 1)]",
         OF h]
    by simp
qed

subsection \<open>Restoring a text that does not parse\<close>

text \<open>
  C3, as the spec states it: whenever the stored text fails to parse as JSON, \<open>restore\<close>
  deletes the key. The empty text is no JSON text, and \<open>if (storedCart)\<close> takes it for an
  absent cart: nothing is parsed and the key stays.
\<close>

theorem restore_empty_text_counterexample:
  "parse_sample [] = None
   \<and> localStorage (restore parse_sample (initial empty_text_storage)) ''cartItems'' = Some []"
  by (simp add: parse_sample_def sample_texts one_item_text_def duplicate_text_def restore_def initial_def
      empty_text_storage_def)

text \<open>
  C3, amended. When the stored text is not empty and \<open>JSON.parse\<close> throws on it, \<open>restore\<close>
  ends normally in the state whose cart is the empty array, whose storage has lost the key
  \<open>cartItems\<close> and nothing else, and whose \<open>loading\<close> is false. The second effect of the
  render that follows then stores the text of the empty array under the key.
\<close>

theorem restore_parse_failure:
  assumes "stored ''cartItems'' = Some s" and "s \<noteq> []" and "parse s = None"
  shows "restore parse (initial stored) =
           \<lparr>cartItems = JArr [], loading = False, localStorage = stored(''cartItems'' := None)\<rparr>
         \<and> localStorage (mount parse stringify (initial stored)) =
             stored(''cartItems'' \<mapsto> stringify (JArr []))"
proof -
  from assms have r: "restore parse (initial stored) =
      \<lparr>cartItems = JArr [], loading = False, localStorage = stored(''cartItems'' := None)\<rparr>"
    by (simp add: restore_def initial_def)
  then have "localStorage (mount parse stringify (initial stored)) =
      stored(''cartItems'' \<mapsto> stringify (JArr []))"
    by (simp add: mount_def Let_def persist_def initial_def)
  with r show ?thesis by simp
qed

theorem restore_parse_failure_witness:
  "restore parse_sample (initial corrupt_storage) =
     \<lparr>cartItems = JArr [], loading = False, localStorage = Map.empty\<rparr>
   \<and> localStorage (mount parse_sample stringify_sample (initial corrupt_storage)) ''cartItems'' =
       Some ''[]''"
proof -
  have h1: "corrupt_storage ''cartItems'' = Some ''not json''"
    by (simp add: corrupt_storage_def)
  have h2: "''not json'' \<noteq> []" by simp
  have h3: "parse_sample ''not json'' = None"
    by (simp add: parse_sample_def sample_texts one_item_text_def duplicate_text_def)
  have e: "corrupt_storage(''cartItems'' := None) = Map.empty"
    by (simp add: corrupt_storage_def)
  have t: "stringify_sample (JArr []) = ''[]''"
    by (simp add: stringify_sample_def stringify_table_def)
  show ?thesis
    using e t
      restore_parse_failure
        [where stored = corrupt_storage and s = "''not json''" and parse = parse_sample
           and stringify = stringify_sample,
         OF h1 h2 h3]
    by simp
qed

subsection \<open>No write while loading\<close>

text \<open>
  C4. While \<open>loading\<close> is true the second effect writes nothing, and no sequence of
  operations changes the storage or ends the loading: what they do to the cart stays in
  memory until \<open>restore\<close> has cleared \<open>loading\<close>.
\<close>

theorem no_write_while_loading:
  assumes "loading st"
  shows "persist stringify st = st
         \<and> localStorage (steps stringify st events) = localStorage st
         \<and> loading (steps stringify st events)"
  using assms localStorage_steps_loading [OF assms, of stringify events]
  by (simp add: persist_def)

theorem no_write_while_loading_witness:
  "loading (initial one_item_storage)
   \<and> persist stringify_sample (initial one_item_storage) = initial one_item_storage
   \<and> cartItems (steps stringify_sample (initial one_item_storage)
        [AddToCart product_p2 None, AddToCart product_p2 (Some 2)]) =
       JArr [newItem product_p2 3]
   \<and> localStorage (steps stringify_sample (initial one_item_storage)
        [AddToCart product_p2 None, AddToCart product_p2 (Some 2)]) = one_item_storage"
proof -
  have h: "loading (initial one_item_storage)" by (simp add: initial_def)
  have c: "cartItems (steps stringify_sample (initial one_item_storage)
        [AddToCart product_p2 None, AddToCart product_p2 (Some 2)]) =
       JArr [newItem product_p2 3]"
    by (simp add: steps_def step_def cartItems_persist initial_def addToCart_def
        productId_eq_def add_quantity_def js_add_def round_double_numeral with_quantity_def set_prop_def
        default_quantity_def newItem_def product_p2_def)
  have l: "localStorage (initial one_item_storage) = one_item_storage"
    by (simp add: initial_def)
  show ?thesis
    using h c l
      no_write_while_loading
        [where st = "initial one_item_storage" and stringify = stringify_sample
           and events = "[AddToCart product_p2 None, AddToCart product_p2 (Some 2)]",
         OF h]
    by simp
qed

subsection \<open>addToCart on a product of the cart\<close>

text \<open>
  C10. When \<open>addToCart\<close> finds an item for the product, the first such item is replaced
  by \<open>{ ...item, quantity: item.quantity + quantity }\<close> and nothing else changes: the items
  before and after it stay as they are, and every property of the new item other than
  \<open>quantity\<close> (\<open>title\<close>, \<open>price\<close>, \<open>imageUrl\<close>, \<open>stock\<close> among them) is read as from the old
  item, whatever fields the product passed carries. The new \<open>quantity\<close> is the \<open>+\<close> of the
  source on the old one; it is the exact sum when the old quantity is an integer and the
  sum is at most \<open>2^53\<close> in magnitude.
\<close>

theorem addToCart_existing_changes_quantity_only:
  assumes "list_all readable pre"
    and "\<not> list_ex (\<lambda>x. has_productId x (product_id product)) pre"
    and "has_productId item (product_id product)"
    and "get_prop item ''quantity'' = Inr old"
  shows "addToCart (JArr (pre @ item # post)) product quantity =
           (case js_add old (JNum (of_int (default_quantity quantity))) of
              Inl e \<Rightarrow> Inl e
            | Inr new \<Rightarrow> Inr (JArr (pre @ with_quantity item new # post)))
         \<and> (\<forall>new k. k \<noteq> ''quantity'' \<longrightarrow>
               get_prop (with_quantity item new) k = get_prop item k)
         \<and> (\<forall>new. get_prop (with_quantity item new) ''quantity'' = Inr new)
         \<and> (\<forall>n. old = JNum (of_int n) \<and> \<bar>n + default_quantity quantity\<bar> \<le> 2 ^ 53 \<longrightarrow>
               addToCart (JArr (pre @ item # post)) product quantity =
                 Inr (JArr (pre @ with_quantity item
                                   (JNum (of_int (n + default_quantity quantity))) # post)))"
proof (intro conjI allI impI)
  show "addToCart (JArr (pre @ item # post)) product quantity =
           (case js_add old (JNum (of_int (default_quantity quantity))) of
              Inl e \<Rightarrow> Inl e
            | Inr new \<Rightarrow> Inr (JArr (pre @ with_quantity item new # post)))"
    using addToCart_found [OF assms(1-3), of post quantity] assms(4)
    by (simp add: add_quantity_def split: sum.splits)
  show "get_prop (with_quantity item new) k = get_prop item k" if "k \<noteq> ''quantity''" for new k
    using assms(3) that by (rule get_prop_with_quantity_other)
  show "get_prop (with_quantity item new) ''quantity'' = Inr new" for new
    by (rule get_prop_with_quantity_same)
  show "addToCart (JArr (pre @ item # post)) product quantity =
          Inr (JArr (pre @ with_quantity item
                            (JNum (of_int (n + default_quantity quantity))) # post))"
    if "old = JNum (of_int n) \<and> \<bar>n + default_quantity quantity\<bar> \<le> 2 ^ 53" for n
  proof -
    from that assms(4) have "get_prop item ''quantity'' = Inr (JNum (of_int n))"
      and "\<bar>n + default_quantity quantity\<bar> \<le> 2 ^ 53"
      by simp_all
    then have "add_quantity (default_quantity quantity) item =
        Inr (with_quantity item (JNum (of_int (n + default_quantity quantity))))"
      by (rule add_quantity_exact)
    with addToCart_found [OF assms(1-3), of post quantity] show ?thesis by simp
  qed
qed

theorem addToCart_existing_changes_quantity_only_witness:
  "addToCart (JArr [newItem product_p2 1, newItem product_p1 2]) product_p1_changed (Some 3) =
     Inr (JArr [newItem product_p2 1, newItem product_p1 5])
   \<and> get_prop (with_quantity (newItem product_p1 2) (JNum 5)) ''title'' = Inr (JStr ''A'')
   \<and> get_prop (with_quantity (newItem product_p1 2) (JNum 5)) ''price'' = Inr (JNum 5)"
proof -
  have h1: "list_all readable [newItem product_p2 1]"
    by (simp add: newItem_def)
  have h2: "\<not> list_ex (\<lambda>x. has_productId x (product_id product_p1_changed)) [newItem product_p2 1]"
    by (simp add: newItem_def has_productId_def product_p1_changed_def product_p2_def)
  have h3: "has_productId (newItem product_p1 2) (product_id product_p1_changed)"
    by (simp add: newItem_def has_productId_def product_p1_changed_def product_p1_def)
  have h4: "get_prop (newItem product_p1 2) ''quantity'' = Inr (JNum 2)"
    by (simp add: newItem_def)
  show ?thesis
    using addToCart_existing_changes_quantity_only
        [where pre = "[newItem product_p2 1]" and item = "newItem product_p1 2" and post = "[]"
           and product = product_p1_changed and quantity = "Some 3" and old = "JNum 2",
         OF h1 h2 h3 h4]
    by (simp add: default_quantity_def newItem_def product_p1_def with_quantity_def
        set_prop_def js_add_def round_double_numeral)
qed

subsection \<open>removeFromCart followed by addToCart\<close>

text \<open>
  C8, as the spec states it: after \<open>removeFromCart\<close> of a product's id, \<open>addToCart\<close> of
  the product with the quantity \<open>q\<close> leaves an item of quantity \<open>q\<close>. It fails when both
  calls are made from the same render: \<open>addToCart\<close> then reads the \<open>cartItems\<close> of that
  render, which still holds the item, and adds to its quantity; the value it sets replaces
  the one \<open>removeFromCart\<close> has set. No operation of the file hands \<open>setCartItems\<close> a
  function of the pending state.
\<close>

theorem remove_then_add_counterexample:
  "renders (JArr [newItem product_p1 2]) [[RemoveFromCart ''p1'', AddToCart product_p1 (Some 4)]] =
     JArr [newItem product_p1 6]"
  by (simp add: removeFromCart_def productId_neq_def addToCart_def productId_eq_def
      add_quantity_def js_add_def round_double_numeral with_quantity_def set_prop_def
      default_quantity_def newItem_def product_p1_def)

text \<open>
  C8, amended. When \<open>addToCart\<close> is called from the render that follows the
  \<open>removeFromCart\<close>, the cart has exactly one item for the product, the new item built
  from the product and the quantity passed, as has a cart that never held the product
  after the same \<open>addToCart\<close>; its quantity is the quantity passed (1 when omitted).
\<close>

theorem remove_then_add_is_fresh:
  assumes "list_all readable items" and "list_all readable fresh"
    and "\<not> list_ex (\<lambda>x. has_productId x (product_id product)) fresh"
  shows "(case renders (JArr items)
                [[RemoveFromCart (product_id product)], [AddToCart product quantity]] of
            JArr items' \<Rightarrow>
              line_items items' (product_id product) =
                [newItem product (default_quantity quantity)]
          | _ \<Rightarrow> False)
         \<and> (case renders (JArr fresh) [[AddToCart product quantity]] of
               JArr items' \<Rightarrow>
                 line_items items' (product_id product) =
                   [newItem product (default_quantity quantity)]
             | _ \<Rightarrow> False)
         \<and> get_prop (newItem product (default_quantity quantity)) ''quantity'' =
             Inr (JNum (of_int (default_quantity quantity)))"
proof -
  let ?p = "product_id product"
  let ?rest = "filter (\<lambda>item. \<not> has_productId item ?p) items"
  let ?new = "newItem product (default_quantity quantity)"
  have new: "has_productId ?new ?p" by (simp add: has_productId_def newItem_def)
  have line: "line_items (xs @ [?new]) ?p = [?new]"
    if "\<not> list_ex (\<lambda>x. has_productId x ?p) xs" for xs
    using that new by (simp add: line_items_def list_ex_iff filter_empty_conv)
  have r: "removeFromCart (JArr items) ?p = Inr (JArr ?rest)"
    using assms(1) by (rule removeFromCart_filter)
  have rest: "list_all readable ?rest" "\<not> list_ex (\<lambda>x. has_productId x ?p) ?rest"
    using assms(1) by (simp_all add: list_all_iff list_ex_iff)
  have a1: "addToCart (JArr ?rest) product quantity = Inr (JArr (?rest @ [?new]))"
    using rest by (rule addToCart_not_found)
  have a2: "addToCart (JArr fresh) product quantity = Inr (JArr (fresh @ [?new]))"
    using assms(2,3) by (rule addToCart_not_found)
  show ?thesis
    using r a1 a2 line [OF rest(2)] line [OF assms(3)]
    by (simp add: newItem_def)
qed

theorem remove_then_add_is_fresh_witness:
  "renders (JArr [newItem product_p1 2, newItem product_p2 1])
     [[RemoveFromCart ''p1''], [AddToCart product_p1 (Some 4)]] =
     JArr [newItem product_p2 1, newItem product_p1 4]
   \<and> renders (JArr [newItem product_p2 1]) [[AddToCart product_p1 (Some 4)]] =
       JArr [newItem product_p2 1, newItem product_p1 4]
   \<and> line_items [newItem product_p2 1, newItem product_p1 4] ''p1'' = [newItem product_p1 4]"
proof -
  have h1: "list_all readable [newItem product_p1 2, newItem product_p2 1]"
    by (simp add: newItem_def)
  have h2: "list_all readable [newItem product_p2 1]"
    by (simp add: newItem_def)
  have h3: "\<not> list_ex (\<lambda>x. has_productId x (product_id product_p1)) [newItem product_p2 1]"
    by (simp add: newItem_def has_productId_def product_p1_def product_p2_def)
  have r: "removeFromCart (JArr [newItem product_p1 2, newItem product_p2 1]) ''p1'' =
       Inr (JArr [newItem product_p2 1])"
    using removeFromCart_filter [OF h1, of "''p1''"]
    by (simp add: newItem_def has_productId_def product_p1_def product_p2_def)
  have a: "addToCart (JArr [newItem product_p2 1]) product_p1 (Some 4) =
       Inr (JArr [newItem product_p2 1, newItem product_p1 4])"
    using addToCart_not_found [OF h2 h3, of "Some 4"] by (simp add: default_quantity_def)
  show ?thesis
    using r a remove_then_add_is_fresh [OF h1 h2 h3, of "Some 4"]
    by (simp add: default_quantity_def product_p1_def)
qed

subsection \<open>Sequences of addToCart calls\<close>

lemma is_line_item_obj:
  assumes "is_line_item item"
  obtains kvs p n where "item = JObj kvs" "map_of kvs ''productId'' = Some (JStr p)"
    "map_of kvs ''quantity'' = Some (JNum (of_int n))"
proof -
  from assms obtain kvs p r where "item = JObj kvs" "map_of kvs ''productId'' = Some (JStr p)"
    "map_of kvs ''quantity'' = Some (JNum r)" "r = of_int \<lfloor>r\<rfloor>"
    by (cases item) (auto simp: is_line_item_def split: option.splits jsval.splits sum.splits)
  then show ?thesis using that [of kvs p "\<lfloor>r\<rfloor>"] by simp
qed

lemma is_line_item_readable: "is_line_item item \<Longrightarrow> readable item"
  by (erule is_line_item_obj) simp

lemma is_line_item_has_productId:
  "is_line_item item \<Longrightarrow> has_productId item p \<longleftrightarrow> pid_of item = p"
  by (erule is_line_item_obj) (simp add: has_productId_def pid_of_def)

lemma is_line_item_quantity:
  "is_line_item item \<Longrightarrow> get_prop item ''quantity'' = Inr (JNum (of_int (qty_of item)))"
  by (erule is_line_item_obj) (simp add: qty_of_def)

lemma newItem_line_item:
  "is_line_item (newItem product n)" "pid_of (newItem product n) = product_id product"
  "qty_of (newItem product n) = n"
  by (simp_all add: is_line_item_def pid_of_def qty_of_def newItem_def)

lemma with_quantity_line_item:
  assumes "is_line_item item"
  shows "is_line_item (with_quantity item (JNum (of_int m)))"
    and "pid_of (with_quantity item (JNum (of_int m))) = pid_of item"
    and "qty_of (with_quantity item (JNum (of_int m))) = m"
proof -
  from assms obtain kvs p n where item: "item = JObj kvs"
    and p: "map_of kvs ''productId'' = Some (JStr p)"
    by (rule is_line_item_obj)
  have 1: "map_of (set_prop kvs ''quantity'' (JNum (of_int m))) ''productId'' = Some (JStr p)"
    using p by (simp add: map_of_set_prop_other)
  have 2: "map_of (set_prop kvs ''quantity'' (JNum (of_int m))) ''quantity'' =
             Some (JNum (of_int m))"
    by (rule map_of_set_prop_same)
  show "is_line_item (with_quantity item (JNum (of_int m)))"
    using 1 2 by (simp add: is_line_item_def with_quantity_def item)
  show "pid_of (with_quantity item (JNum (of_int m))) = pid_of item"
    using 1 p by (simp add: pid_of_def with_quantity_def item)
  show "qty_of (with_quantity item (JNum (of_int m))) = m"
    using 2 by (simp add: qty_of_def with_quantity_def item)
qed

lemma qty_append: "qty (xs @ ys) p = qty xs p + qty ys p"
  by (simp add: qty_def)

lemma qty_Cons: "qty (x # xs) p = (if pid_of x = p then qty_of x else 0) + qty xs p"
  by (simp add: qty_def)

lemma qty_Nil: "qty [] p = 0"
  by (simp add: qty_def)

lemma items_magnitude_append:
  "items_magnitude (xs @ ys) = items_magnitude xs + items_magnitude ys"
  by (simp add: items_magnitude_def)

lemma items_magnitude_Cons: "items_magnitude (x # xs) = \<bar>qty_of x\<bar> + items_magnitude xs"
  by (simp add: items_magnitude_def)

lemma items_magnitude_Nil: "items_magnitude [] = 0"
  by (simp add: items_magnitude_def)

lemma items_magnitude_nonneg: "0 \<le> items_magnitude xs"
  by (induction xs) (simp_all add: items_magnitude_Nil items_magnitude_Cons)

lemma no_line_item_for:
  "list_all is_line_item xs \<Longrightarrow> p \<notin> set (map pid_of xs) \<Longrightarrow>
     \<not> list_ex (\<lambda>x. has_productId x p) xs"
  by (induction xs) (auto simp: is_line_item_has_productId)

text \<open>One call on a cart of line items.\<close>

lemma addToCart_line_items:
  assumes "list_all is_line_item items"
    and "items_magnitude items + \<bar>default_quantity quantity\<bar> \<le> 2 ^ 53"
  shows "\<exists>items'. addToCart (JArr items) product quantity = Inr (JArr items')
           \<and> list_all is_line_item items'
           \<and> map pid_of items' =
               (if product_id product \<in> set (map pid_of items) then map pid_of items
                else map pid_of items @ [product_id product])
           \<and> (\<forall>p. qty items' p =
                 qty items p + (if p = product_id product then default_quantity quantity else 0))
           \<and> items_magnitude items' \<le> items_magnitude items + \<bar>default_quantity quantity\<bar>"
proof (cases "product_id product \<in> set (map pid_of items)")
  case False
  from assms(1) have r: "list_all readable items"
    by (simp add: list_all_iff is_line_item_readable)
  from assms(1) False have "\<not> list_ex (\<lambda>x. has_productId x (product_id product)) items"
    by (rule no_line_item_for)
  with r have "addToCart (JArr items) product quantity =
      Inr (JArr (items @ [newItem product (default_quantity quantity)]))"
    by (rule addToCart_not_found)
  with assms(1) False show ?thesis
    by (simp add: newItem_line_item qty_append qty_Cons qty_Nil items_magnitude_append
        items_magnitude_Cons items_magnitude_Nil)
next
  case True
  then have "\<exists>x \<in> set items. pid_of x = product_id product" by auto
  then have "\<exists>pre item post. items = pre @ item # post \<and> pid_of item = product_id product
      \<and> (\<forall>y \<in> set pre. pid_of y \<noteq> product_id product)"
    by (rule split_list_first_prop)
  then obtain pre item post where split: "items = pre @ item # post"
    and item: "pid_of item = product_id product"
    and pre': "\<forall>y \<in> set pre. pid_of y \<noteq> product_id product"
    by blast
  from pre' have pre: "product_id product \<notin> set (map pid_of pre)" by auto
  from assms(1) split have li: "list_all is_line_item pre" "is_line_item item"
    "list_all is_line_item post"
    by simp_all
  from li(1) have r: "list_all readable pre"
    by (simp add: list_all_iff is_line_item_readable)
  from li(1) pre have nf: "\<not> list_ex (\<lambda>x. has_productId x (product_id product)) pre"
    by (rule no_line_item_for)
  from li(2) item have f: "has_productId item (product_id product)"
    by (simp add: is_line_item_has_productId)
  let ?q = "default_quantity quantity"
  let ?item' = "with_quantity item (JNum (of_int (qty_of item + ?q)))"
  have m: "items_magnitude items = items_magnitude pre + \<bar>qty_of item\<bar> + items_magnitude post"
    by (simp add: split items_magnitude_append items_magnitude_Cons)
  with assms(2) items_magnitude_nonneg [of pre] items_magnitude_nonneg [of post]
  have bound: "\<bar>qty_of item + ?q\<bar> \<le> 2 ^ 53" by linarith
  have "add_quantity ?q item = Inr ?item'"
    using is_line_item_quantity [OF li(2)] bound by (rule add_quantity_exact)
  with addToCart_found [OF r nf f, of post quantity]
  have res: "addToCart (JArr (pre @ item # post)) product quantity = Inr (JArr (pre @ ?item' # post))"
    by simp
  note wq = with_quantity_line_item [OF li(2), of "qty_of item + ?q"]
  have m': "items_magnitude (pre @ ?item' # post) \<le> items_magnitude items + \<bar>?q\<bar>"
    by (simp only: m items_magnitude_append items_magnitude_Cons wq)
  from res split li True item m' wq show ?thesis
    by (simp add: qty_append qty_Cons del: of_int_add)
qed

lemma requested_Nil: "requested [] p = 0"
  by (simp add: requested_def)

lemma requested_Cons:
  "requested ((product, quantity) # calls) p =
     (if product_id product = p then default_quantity quantity else 0) + requested calls p"
  by (simp add: requested_def)

lemma magnitude_Nil: "magnitude [] = 0"
  by (simp add: magnitude_def)

lemma magnitude_Cons:
  "magnitude ((product, quantity) # calls) = \<bar>default_quantity quantity\<bar> + magnitude calls"
  by (simp add: magnitude_def)

lemma magnitude_nonneg: "0 \<le> magnitude calls"
  by (induction calls) (auto simp: magnitude_Nil magnitude_Cons)

lemma renders_one_call:
  "renders cart (one_call_per_render ((product, quantity) # calls)) =
     renders (case addToCart cart product quantity of Inl e \<Rightarrow> cart | Inr v \<Rightarrow> v)
       (one_call_per_render calls)"
  by (simp add: one_call_per_render_def split: sum.splits)

lemma renders_line_items:
  assumes "list_all is_line_item items"
    and "items_magnitude items + magnitude calls \<le> 2 ^ 53"
  shows "\<exists>items'. renders (JArr items) (one_call_per_render calls) = JArr items'
           \<and> list_all is_line_item items'
           \<and> set (map pid_of items') = set (map pid_of items) \<union> set (map (product_id \<circ> fst) calls)
           \<and> (distinct (map pid_of items) \<longrightarrow> distinct (map pid_of items'))
           \<and> (\<forall>p. qty items' p = qty items p + requested calls p)"
  using assms
proof (induction calls arbitrary: items)
  case Nil
  then show ?case by (simp add: requested_Nil one_call_per_render_def)
next
  case (Cons call calls)
  obtain product quantity where call: "call = (product, quantity)" by (cases call)
  from Cons.prems(2) magnitude_nonneg [of calls]
  have b1: "items_magnitude items + \<bar>default_quantity quantity\<bar> \<le> 2 ^ 53"
    by (simp add: call magnitude_Cons)
  from addToCart_line_items [OF Cons.prems(1) b1, of product]
  obtain mid where mid: "addToCart (JArr items) product quantity = Inr (JArr mid)"
    and li: "list_all is_line_item mid"
    and ids: "map pid_of mid =
               (if product_id product \<in> set (map pid_of items) then map pid_of items
                else map pid_of items @ [product_id product])"
    and q: "\<forall>p. qty mid p =
              qty items p + (if p = product_id product then default_quantity quantity else 0)"
    and m: "items_magnitude mid \<le> items_magnitude items + \<bar>default_quantity quantity\<bar>"
    by blast
  from m Cons.prems(2) have b2: "items_magnitude mid + magnitude calls \<le> 2 ^ 53"
    by (simp add: call magnitude_Cons)
  from Cons.IH [OF li b2]
  obtain items' where res: "renders (JArr mid) (one_call_per_render calls) = JArr items'"
    and li': "list_all is_line_item items'"
    and ids': "set (map pid_of items') = set (map pid_of mid) \<union> set (map (product_id \<circ> fst) calls)"
    and d': "distinct (map pid_of mid) \<longrightarrow> distinct (map pid_of items')"
    and q': "\<forall>p. qty items' p = qty mid p + requested calls p"
    by blast
  have 1: "renders (JArr items) (one_call_per_render (call # calls)) = JArr items'"
    using mid res by (simp add: call renders_one_call)
  have 2: "set (map pid_of items') =
             set (map pid_of items) \<union> set (map (product_id \<circ> fst) (call # calls))"
    using ids ids' by (auto simp: call split: if_splits)
  have 3: "distinct (map pid_of items) \<longrightarrow> distinct (map pid_of items')"
    using ids d' by (auto split: if_splits)
  have 4: "\<forall>p. qty items' p = qty items p + requested (call # calls) p"
    using q q' by (auto simp: call requested_Cons)
  from 1 li' 2 3 4 show ?case by blast
qed

lemma filter_singleton:
  "distinct (map f xs) \<Longrightarrow> x \<in> set xs \<Longrightarrow> filter (\<lambda>y. f y = f x) xs = [x]"
proof (induction xs)
  case Nil
  then show ?case by simp
next
  case (Cons a xs)
  show ?case
  proof (cases "a = x")
    case True
    with Cons.prems have "filter (\<lambda>y. f y = f x) xs = []"
      by (auto simp: filter_empty_conv image_iff)
    with True show ?thesis by simp
  next
    case False
    with Cons.prems have "x \<in> set xs" "f a \<noteq> f x" by (auto simp: image_iff)
    with Cons show ?thesis by simp
  qed
qed

lemma line_items_pid_of:
  "list_all is_line_item items \<Longrightarrow> line_items items p = filter (\<lambda>item. pid_of item = p) items"
  unfolding line_items_def
  by (rule filter_cong) (simp_all add: list_all_iff is_line_item_has_productId)

lemma same_render_unique:
  "unique_productIds rendered \<Longrightarrow> unique_productIds pending \<Longrightarrow>
     unique_productIds (same_render rendered pending evs)"
  by (induction evs arbitrary: pending) (auto split: sum.splits dest: run_unique)

lemma renders_unique:
  "unique_productIds rendered \<Longrightarrow> unique_productIds (renders rendered batches)"
  by (induction batches arbitrary: rendered) (simp_all add: same_render_unique)

lemma round_double_tie: "round_double 9007199254740993 = JNum 9007199254740992"
  using round_double_2_53_1 by simp

text \<open>
  C1, as the spec states it: after every sequence of \<open>addToCart\<close> calls on the empty cart
  the quantity of a product's item is the sum of the quantities passed for it. It fails
  for calls made from one render, each of which starts from the \<open>cartItems\<close> of that
  render, so that only the last call shows: three calls asking for 4 of one product and 2
  of another leave one item of quantity 3. It also fails where the sum is no Number
  value: \<open>2^53\<close> and then 1 more, each from its own render, leave \<open>2^53\<close>.
\<close>

theorem addToCart_calls_counterexample:
  "renders (JArr [])
     [[AddToCart product_p1 None, AddToCart product_p2 (Some 2),
       AddToCart product_p1_changed (Some 3)]] =
     JArr [newItem product_p1_changed 3]
   \<and> requested [(product_p1, None), (product_p2, Some 2), (product_p1_changed, Some 3)] ''p1'' = 4
   \<and> requested [(product_p1, None), (product_p2, Some 2), (product_p1_changed, Some 3)] ''p2'' = 2
   \<and> renders (JArr [])
       (one_call_per_render [(product_p1, Some 9007199254740992), (product_p1, None)]) =
       JArr [newItem product_p1 9007199254740992]
   \<and> requested [(product_p1, Some 9007199254740992), (product_p1, None)] ''p1'' =
       9007199254740993"
  by (simp add: one_call_per_render_def addToCart_def productId_eq_def add_quantity_def
      js_add_def round_double_tie with_quantity_def set_prop_def default_quantity_def
      newItem_def requested_def product_p1_def product_p2_def product_p1_changed_def)

text \<open>
  C1, amended. After a sequence of \<open>addToCart\<close> calls on the empty cart, each made from
  the render that follows the call before it, and with quantities whose magnitudes sum to
  at most \<open>2^53\<close>, the cart has exactly one item for each product id passed and none for
  any other, and the quantity of that item is the sum of the quantities passed for the id
  (1 where omitted). After the calls of any renders whatever, of any of the four
  operations, no two items of the cart have the same \<open>productId\<close>.
\<close>

theorem addToCart_calls_sum:
  assumes "magnitude calls \<le> 2 ^ 53"
  shows "(case renders (JArr []) (one_call_per_render calls) of
            JArr items \<Rightarrow>
              map (\<lambda>item. get_prop item ''quantity'') (line_items items p) =
                (if p \<in> set (map (product_id \<circ> fst) calls)
                 then [Inr (JNum (of_int (requested calls p)))] else [])
          | _ \<Rightarrow> False)
         \<and> unique_productIds (renders (JArr []) batches)"
proof -
  from renders_line_items [of "[]" calls] assms
  obtain items where res: "renders (JArr []) (one_call_per_render calls) = JArr items"
    and li: "list_all is_line_item items"
    and ids: "set (map pid_of items) = set (map (product_id \<circ> fst) calls)"
    and d: "distinct (map pid_of items)"
    and q: "\<forall>p. qty items p = requested calls p"
    by (auto simp: qty_Nil items_magnitude_Nil)
  have "map (\<lambda>item. get_prop item ''quantity'') (line_items items p) =
            (if p \<in> set (map (product_id \<circ> fst) calls)
             then [Inr (JNum (of_int (requested calls p)))] else [])"
  proof (cases "p \<in> set (map pid_of items)")
    case False
    then have "filter (\<lambda>item. pid_of item = p) items = []"
      by (auto simp: filter_empty_conv)
    with False ids li show ?thesis by (simp add: line_items_pid_of)
  next
    case True
    then obtain x where x: "x \<in> set items" "pid_of x = p" by auto
    with d have f: "filter (\<lambda>item. pid_of item = p) items = [x]"
      using filter_singleton [of pid_of items x] by simp
    then have "qty items p = qty_of x" by (simp add: qty_def)
    with q have "qty_of x = requested calls p" by simp
    moreover from x li have "is_line_item x" by (simp add: list_all_iff)
    ultimately have "get_prop x ''quantity'' = Inr (JNum (of_int (requested calls p)))"
      by (simp add: is_line_item_quantity)
    with True ids li f show ?thesis by (simp add: line_items_pid_of)
  qed
  moreover have "unique_productIds (renders (JArr []) batches)"
    by (rule renders_unique) (simp add: unique_productIds_def)
  ultimately show ?thesis using res by simp
qed

theorem addToCart_calls_sum_witness:
  "renders (JArr [])
     (one_call_per_render
        [(product_p1, None), (product_p2, Some 2), (product_p1_changed, Some 3)]) =
     JArr [newItem product_p1 4, newItem product_p2 2]
   \<and> requested [(product_p1, None), (product_p2, Some 2), (product_p1_changed, Some 3)] ''p1'' = 4
   \<and> line_items [newItem product_p1 4, newItem product_p2 2] ''p1'' = [newItem product_p1 4]"
proof -
  have m: "magnitude [(product_p1, None), (product_p2, Some 2), (product_p1_changed, Some 3)]
             \<le> 2 ^ 53"
    by (simp add: magnitude_def default_quantity_def)
  have "renders (JArr [])
     (one_call_per_render
        [(product_p1, None), (product_p2, Some 2), (product_p1_changed, Some 3)]) =
     JArr [newItem product_p1 4, newItem product_p2 2]"
    by (simp add: one_call_per_render_def addToCart_def productId_eq_def add_quantity_def
        js_add_def round_double_numeral with_quantity_def set_prop_def default_quantity_def
        newItem_def product_p1_def product_p2_def product_p1_changed_def)
  then show ?thesis
    using addToCart_calls_sum
      [where calls = "[(product_p1, None), (product_p2, Some 2), (product_p1_changed, Some 3)]"
         and p = "''p1''" and batches = "[]", OF m]
    by (simp add: requested_def default_quantity_def product_p1_def product_p2_def
        product_p1_changed_def line_items_def has_productId_def newItem_def)
qed

subsection \<open>The derived values\<close>

lemma foldl_Inl:
  "foldl (\<lambda>r x. case r of Inl e \<Rightarrow> Inl e | Inr a \<Rightarrow> f a x) (Inl e) xs = Inl e"
  by (induction xs) simp_all

lemma reduce_foldl:
  "reduce f acc xs = foldl (\<lambda>r x. case r of Inl e \<Rightarrow> Inl e | Inr a \<Rightarrow> f a x) (Inr acc) xs"
  by (induction xs arbitrary: acc) (simp_all add: foldl_Inl split: sum.splits)

lemma is_number_round_double: "is_number (round_double x)"
  by (simp add: round_double_def Let_def)

lemma is_number_number_add: "is_number a \<Longrightarrow> is_number b \<Longrightarrow> is_number (number_add a b)"
  by (cases a; cases b) (simp_all add: is_number_round_double)

lemma js_add_number: "is_number a \<Longrightarrow> is_number b \<Longrightarrow> js_add a b = Inr (number_add a b)"
  by (cases a; cases b) (simp_all add: js_add_def)

lemma js_mul_numbers: "js_mul h (JNum p) (JNum q) = Inr (round_double (p * q))"
  by (simp add: js_mul_def to_numeric_def)

lemma is_priced_item_props:
  assumes "is_priced_item item"
  shows "get_prop item ''price'' = Inr (JNum (price_of item))"
    and "get_prop item ''quantity'' = Inr (JNum (quantity_of item))"
  using assms
  by (auto simp: is_priced_item_def price_of_def quantity_of_def split: sum.splits jsval.splits)

lemma reduce_quantity:
  assumes "list_all is_priced_item items" and "is_number acc"
  shows "reduce (\<lambda>acc item. case get_prop item ''quantity'' of
                               Inl e \<Rightarrow> Inl e
                             | Inr q \<Rightarrow> js_add acc q) acc items =
           Inr (foldl number_add acc (map (\<lambda>item. JNum (quantity_of item)) items))"
  using assms
proof (induction items arbitrary: acc)
  case Nil
  then show ?case by simp
next
  case (Cons item items)
  from Cons.prems have q: "get_prop item ''quantity'' = Inr (JNum (quantity_of item))"
    by (simp add: is_priced_item_props)
  from Cons.prems have n: "is_number (number_add acc (JNum (quantity_of item)))"
    by (simp add: is_number_number_add)
  from Cons.prems have "list_all is_priced_item items" by simp
  from Cons.IH [OF this n] q Cons.prems(2) show ?case
    by (simp add: js_add_number)
qed

lemma reduce_price:
  assumes "list_all is_priced_item items" and "is_number acc"
  shows "reduce (\<lambda>acc item. case get_prop item ''price'' of
                               Inl e \<Rightarrow> Inl e
                             | Inr p \<Rightarrow>
                                 (case get_prop item ''quantity'' of
                                    Inl e \<Rightarrow> Inl e
                                  | Inr q \<Rightarrow>
                                      (case js_mul h p q of
                                         Inl e \<Rightarrow> Inl e
                                       | Inr m \<Rightarrow> js_add acc m))) acc items =
           Inr (foldl number_add acc
                  (map (\<lambda>item. round_double (price_of item * quantity_of item)) items))"
  using assms
proof (induction items arbitrary: acc)
  case Nil
  then show ?case by simp
next
  case (Cons item items)
  let ?m = "round_double (price_of item * quantity_of item)"
  from Cons.prems have q: "get_prop item ''quantity'' = Inr (JNum (quantity_of item))"
    and p: "get_prop item ''price'' = Inr (JNum (price_of item))"
    by (simp_all add: is_priced_item_props)
  from Cons.prems have n: "is_number (number_add acc ?m)"
    by (simp add: is_number_number_add is_number_round_double)
  from Cons.prems have "list_all is_priced_item items" by simp
  from Cons.IH [OF this n] p q Cons.prems(2) show ?case
    by (simp add: js_mul_numbers js_add_number is_number_round_double)
qed

lemma is_number_foldl:
  "is_number acc \<Longrightarrow> \<forall>x \<in> set xs. is_number x \<Longrightarrow> is_number (foldl number_add acc xs)"
  by (induction xs arbitrary: acc) (simp_all add: is_number_number_add)

lemma toFixed_number: "is_number t \<Longrightarrow> \<exists>text. toFixed t = Inr text"
  by (cases t) simp_all

lemma foldl_number_add_int:
  "\<bar>a\<bar> + sum_list (map abs ns) \<le> 2 ^ 53 \<Longrightarrow>
     foldl number_add (JNum (of_int a)) (map (\<lambda>n. JNum (of_int n)) ns) =
       JNum (of_int (a + sum_list ns))"
proof (induction ns arbitrary: a)
  case Nil
  then show ?case by simp
next
  case (Cons n ns)
  have nn: "0 \<le> sum_list (map abs ns)" by (induction ns) simp_all
  with Cons.prems have b: "\<bar>a + n\<bar> \<le> 2 ^ 53" by simp
  have "round_double (of_int a + of_int n) = JNum (of_int (a + n))"
    using round_double_int [OF b] by simp
  moreover from Cons.prems have "\<bar>a + n\<bar> + sum_list (map abs ns) \<le> 2 ^ 53" by simp
  ultimately show ?case using Cons.IH [of "a + n"] by (simp add: add.assoc)
qed

lemma quantity_of_line_item: "is_line_item item \<Longrightarrow> quantity_of item = of_int (qty_of item)"
  by (auto simp: is_line_item_def quantity_of_def qty_of_def split: sum.splits jsval.splits)

lemma show_nat_hundreds:
  assumes "100 \<le> n"
  shows "show_nat n =
           show_nat (n div 100) @ [digit_char (n div 10 mod 10), digit_char (n mod 10)]"
proof -
  from assms have "10 \<le> n" "10 \<le> n div 10" by simp_all
  then have "show_nat n = (show_nat (n div 10 div 10) @ [digit_char (n div 10 mod 10)]) @
      [digit_char (n mod 10)]"
    by (simp only: show_nat_step)
  moreover have "n div 10 div 10 = n div 100" by (simp add: div_mult2_eq [symmetric])
  ultimately show ?thesis by simp
qed

lemma show_nat_nonempty: "show_nat n \<noteq> []"
  by (subst show_nat.simps) simp

lemma toFixed2_digits:
  assumes "\<bar>x\<bar> < 10 ^ 21"
  shows "toFixed2 x =
           (if x < 0 then ''-'' else []) @ show_nat (hundredths x div 100) @ ''.'' @
           [digit_char (hundredths x div 10 mod 10), digit_char (hundredths x mod 10)]"
proof -
  define n where "n = hundredths x"
  let ?a = "show_nat (n div 100) @ ''.'' @ [digit_char (n div 10 mod 10), digit_char (n mod 10)]"
  have "(let m = show_nat n;
             m' = (if length m \<le> 2 then replicate (3 - length m) CHR ''0'' @ m else m)
         in take (length m' - 2) m' @ ''.'' @ drop (length m' - 2) m') = ?a"
  proof -
    consider "n < 10" | "10 \<le> n" "n < 100" | "100 \<le> n" by linarith
    then show ?thesis
    proof cases
      case 1
      then show ?thesis by (simp add: show_nat_small Let_def digit_char_def)
    next
      case 2
      then have "n div 10 < 10" by simp
      with 2 show ?thesis by (simp add: show_nat_step show_nat_small Let_def digit_char_def)
    next
      case 3
      then show ?thesis by (simp add: show_nat_hundreds show_nat_nonempty Let_def)
    qed
  qed
  with assms show ?thesis by (simp add: toFixed2_def Let_def n_def)
qed

lemma hundredths_nearest:
  "\<bar>x\<bar> * 100 - 1 / 2 < of_nat (hundredths x) \<and> of_nat (hundredths x) \<le> \<bar>x\<bar> * 100 + 1 / 2"
proof -
  have "0 \<le> \<lfloor>\<bar>x\<bar> * 100 + 1 / 2\<rfloor>" by simp
  then have "(of_nat (hundredths x) :: rat) = of_int \<lfloor>\<bar>x\<bar> * 100 + 1 / 2\<rfloor>"
    by (simp add: hundredths_def)
  then show ?thesis by linarith
qed

lemma round_double_1e21: "round_double 1000000000000000000000 = JNum 1000000000000000000000"
  using round_double_pos [of 1000000000000000000000 69]
  by (simp add: Let_def round_half_even_def)

lemma round_double_2e21: "round_double 2000000000000000000000 = JNum 2000000000000000000000"
  using round_double_pos [of 2000000000000000000000 70]
  by (simp add: Let_def round_half_even_def)

lemma floor_log10_1e21: "floor_log10 1000000000000000000000 = 21"
  by (simp add: floor_log10_def log10_up.simps)

lemma nearest_decimal_1e21: "nearest_decimal 1000000000000000000000 22 (Suc 0) = Suc 0"
  by (simp add: nearest_decimal_def Let_def round_double_1e21 round_double_2e21)

lemma denotes_1e21: "denotes 1000000000000000000000 22 1"
  by (simp add: denotes_def nearest_decimal_1e21 round_double_1e21)

lemma shortest_decimal_1e21: "shortest_decimal 1000000000000000000000 = (1, 22)"
proof -
  have "[1..<18] = 1 # [2..<18]" by (simp add: upt_conv_Cons)
  then have "List.find (denotes 1000000000000000000000 22) [1..<18] = Some 1"
    by (simp only: find.simps denotes_1e21 if_True)
  then show ?thesis
    by (simp add: shortest_decimal_def floor_log10_1e21 nearest_decimal_1e21 Let_def)
qed

lemma number_to_string_1e21: "number_to_string 1000000000000000000000 = ''1e+21''"
  by (simp add: number_to_string_def positive_to_string_def shortest_decimal_1e21
      show_nat_small digit_char_def exponent_text_def show_nat_step)

lemma round_double_p3:
  "round_double (5626684784446013 / 281474976710656) = JNum (5626684784446013 / 281474976710656)"
  using round_double_pos [of "5626684784446013 / 281474976710656" 4]
  by (simp add: Let_def round_half_even_def)

subsection \<open>Restoring a value of any shape\<close>

text \<open>
  C9. When the stored text is not empty and \<open>JSON.parse\<close> returns a value for it, of
  whatever shape, \<open>restore\<close> makes that value the \<open>cartItems\<close> and changes nothing else
  but \<open>loading\<close>, and it is the value rendered after mounting. The two totals are then
  computed on it as on any cart: a value that is no array has no \<open>reduce\<close> and the render
  throws; on an array \<open>totalItems\<close> folds the \<open>+\<close> of the source over the \<open>quantity\<close> read
  from each element and \<open>totalPrice\<close> folds it over the \<open>*\<close> of the \<open>price\<close> and the
  \<open>quantity\<close> read from each element, from 0 and from left to right, the first exception
  ending the render.
\<close>

theorem restore_assigns_verbatim:
  assumes "stored ''cartItems'' = Some s" and "s \<noteq> []" and "parse s = Some v"
  shows "restore parse (initial stored) =
           \<lparr>cartItems = v, loading = False, localStorage = stored\<rparr>
         \<and> cartItems (mount parse stringify (initial stored)) = v
         \<and> totalItems (cartItems (restore parse (initial stored))) =
             (case v of
                JArr items \<Rightarrow>
                  foldl (\<lambda>total item.
                           case total of
                             Inl e \<Rightarrow> Inl e
                           | Inr acc \<Rightarrow>
                               (case get_prop item ''quantity'' of
                                  Inl e \<Rightarrow> Inl e
                                | Inr q \<Rightarrow> js_add acc q))
                        (Inr (JNum 0)) items
              | _ \<Rightarrow> Inl TypeError)
         \<and> totalPrice string_to_number (cartItems (restore parse (initial stored))) =
             (case v of
                JArr items \<Rightarrow>
                  foldl (\<lambda>total item.
                           case total of
                             Inl e \<Rightarrow> Inl e
                           | Inr acc \<Rightarrow>
                               (case get_prop item ''price'' of
                                  Inl e \<Rightarrow> Inl e
                                | Inr p \<Rightarrow>
                                    (case get_prop item ''quantity'' of
                                       Inl e \<Rightarrow> Inl e
                                     | Inr q \<Rightarrow>
                                         (case js_mul string_to_number p q of
                                            Inl e \<Rightarrow> Inl e
                                          | Inr m \<Rightarrow> js_add acc m))))
                        (Inr (JNum 0)) items
              | _ \<Rightarrow> Inl TypeError)"
proof -
  from assms have r: "restore parse (initial stored) =
      \<lparr>cartItems = v, loading = False, localStorage = stored\<rparr>"
    by (simp add: restore_def initial_def)
  then have m: "cartItems (mount parse stringify (initial stored)) = v"
    by (simp add: cartItems_mount)
  have i: "totalItems v =
             (case v of
                JArr items \<Rightarrow>
                  foldl (\<lambda>total item.
                           case total of
                             Inl e \<Rightarrow> Inl e
                           | Inr acc \<Rightarrow>
                               (case get_prop item ''quantity'' of
                                  Inl e \<Rightarrow> Inl e
                                | Inr q \<Rightarrow> js_add acc q))
                        (Inr (JNum 0)) items
              | _ \<Rightarrow> Inl TypeError)"
    by (simp add: totalItems_def reduce_foldl split: jsval.splits)
  have p: "totalPrice string_to_number v =
             (case v of
                JArr items \<Rightarrow>
                  foldl (\<lambda>total item.
                           case total of
                             Inl e \<Rightarrow> Inl e
                           | Inr acc \<Rightarrow>
                               (case get_prop item ''price'' of
                                  Inl e \<Rightarrow> Inl e
                                | Inr p \<Rightarrow>
                                    (case get_prop item ''quantity'' of
                                       Inl e \<Rightarrow> Inl e
                                     | Inr q \<Rightarrow>
                                         (case js_mul string_to_number p q of
                                            Inl e \<Rightarrow> Inl e
                                          | Inr m \<Rightarrow> js_add acc m))))
                        (Inr (JNum 0)) items
              | _ \<Rightarrow> Inl TypeError)"
    by (simp add: totalPrice_def reduce_foldl split: jsval.splits)
  from r m i p show ?thesis by simp
qed

theorem restore_assigns_verbatim_witness:
  "restore parse_sample (initial duplicate_storage) =
     \<lparr>cartItems = duplicate_items, loading = False, localStorage = duplicate_storage\<rparr>
   \<and> \<not> unique_productIds duplicate_items
   \<and> totalItems duplicate_items = Inr (JNum 3)
   \<and> totalPrice string_to_number_sample duplicate_items = Inr (JNum 15)
   \<and> render string_to_number_sample duplicate_items = Inr (JNum 3, ''15.00'')
   \<and> restore parse_sample (initial number_storage) =
       \<lparr>cartItems = JNum 5, loading = False, localStorage = number_storage\<rparr>
   \<and> totalItems (JNum 5) = Inl TypeError
   \<and> render string_to_number_sample (JNum 5) = Inl TypeError"
proof -
  have d1: "duplicate_storage ''cartItems'' = Some duplicate_text"
    by (simp add: duplicate_storage_def)
  have d2: "duplicate_text \<noteq> []" by (simp add: duplicate_text_def)
  have d3: "parse_sample duplicate_text = Some duplicate_items"
    by (simp add: parse_sample_def sample_texts)
  have n1: "number_storage ''cartItems'' = Some ''5''"
    by (simp add: number_storage_def)
  have n2: "''5'' \<noteq> []" by simp
  have n3: "parse_sample ''5'' = Some (JNum 5)"
    by (simp add: parse_sample_def sample_texts)
  have u: "\<not> unique_productIds duplicate_items"
    by (simp add: duplicate_items_def unique_productIds_def newItem_def)
  have i: "totalItems duplicate_items = Inr (JNum 3)"
    by (simp add: totalItems_def duplicate_items_def newItem_def js_add_def round_double_numeral)
  have p: "totalPrice string_to_number_sample duplicate_items = Inr (JNum 15)"
    by (simp add: totalPrice_def duplicate_items_def newItem_def product_p1_def js_add_def
        js_mul_def to_numeric_def round_double_numeral)
  have f: "toFixed2 15 = ''15.00''"
    by (simp add: toFixed2_def hundredths_def Let_def floor_rat_numeral show_nat_step
        show_nat_small digit_char_def)
  have r: "render string_to_number_sample duplicate_items = Inr (JNum 3, ''15.00'')"
    by (simp add: render_def i p f)
  have t: "totalItems (JNum 5) = Inl TypeError" by (simp add: totalItems_def)
  then have e: "render string_to_number_sample (JNum 5) = Inl TypeError"
    by (simp add: render_def)
  show ?thesis
    using u i p r t e
      restore_assigns_verbatim
        [where stored = duplicate_storage and s = duplicate_text and parse = parse_sample
           and v = duplicate_items and stringify = stringify_sample
           and string_to_number = string_to_number_sample,
         OF d1 d2 d3]
      restore_assigns_verbatim
        [where stored = number_storage and s = "''5''" and parse = parse_sample
           and v = "JNum 5" and stringify = stringify_sample
           and string_to_number = string_to_number_sample,
         OF n1 n2 n3]
    by simp
qed

subsection \<open>The totals\<close>

text \<open>
  C5, as the spec states it: in every state of the cart \<open>totalItems\<close> is the sum of the
  quantities and \<open>totalPrice\<close> is a text with exactly two fraction digits. It fails for
  the cart restored from a stored array whose item has the text \<open>x\<close> for a quantity, where
  \<open>totalItems\<close> is the text \<open>0x\<close> and \<open>totalPrice\<close> is \<open>NaN\<close>; for the cart restored from a
  stored array whose item has no price, where \<open>totalPrice\<close> is \<open>NaN\<close>; and for the cart
  with one item of the price \<open>10^21\<close>, where \<open>totalPrice\<close> is \<open>1e+21\<close>.
\<close>

theorem totals_counterexample:
  "cartItems (restore parse_sample (initial text_quantity_storage)) = text_quantity_items
   \<and> render string_to_number_sample text_quantity_items = Inr (JStr ''0x'', ''NaN'')
   \<and> cartItems (restore parse_sample (initial no_price_storage)) = no_price_items
   \<and> render string_to_number_sample no_price_items = Inr (JNum 2, ''NaN'')
   \<and> renders (JArr []) [[AddToCart product_p4 None]] = JArr [newItem product_p4 1]
   \<and> render string_to_number_sample (JArr [newItem product_p4 1]) = Inr (JNum 1, ''1e+21'')"
proof -
  have 1: "cartItems (restore parse_sample (initial text_quantity_storage)) = text_quantity_items"
    by (simp add: cartItems_restore initial_def text_quantity_storage_def parse_sample_def
        sample_texts)
  have 2: "render string_to_number_sample text_quantity_items = Inr (JStr ''0x'', ''NaN'')"
    by (simp add: render_def totalItems_def totalPrice_def text_quantity_items_def js_add_def
        js_mul_def to_numeric_def prim_to_string_def number_to_string_def
        string_to_number_sample_def)
  have 3: "cartItems (restore parse_sample (initial no_price_storage)) = no_price_items"
    by (simp add: cartItems_restore initial_def no_price_storage_def parse_sample_def
        sample_texts)
  have 4: "render string_to_number_sample no_price_items = Inr (JNum 2, ''NaN'')"
    by (simp add: render_def totalItems_def totalPrice_def no_price_items_def js_add_def
        js_mul_def to_numeric_def round_double_numeral)
  have 5: "renders (JArr []) [[AddToCart product_p4 None]] = JArr [newItem product_p4 1]"
    by (simp add: addToCart_def default_quantity_def)
  have 6: "render string_to_number_sample (JArr [newItem product_p4 1]) =
             Inr (JNum 1, ''1e+21'')"
    by (simp add: render_def totalItems_def totalPrice_def newItem_def product_p4_def js_add_def
        js_mul_def to_numeric_def round_double_numeral round_double_1e21 toFixed2_def
        number_to_string_1e21)
  from 1 2 3 4 5 6 show ?thesis by simp
qed

text \<open>
  C5, amended. For a cart whose items all have a finite number for \<open>price\<close> and for
  \<open>quantity\<close>, \<open>totalItems\<close> is the sum of the quantities and \<open>totalPrice\<close> is the sum of
  the products of price and quantity, as doubles: each product and each partial sum, taken
  from left to right from 0, is rounded to the nearest double. \<open>totalItems\<close> is the exact
  sum when the quantities are integers whose magnitudes sum to at most \<open>2^53\<close>. The
  render shows \<open>totalPrice.toFixed(2)\<close>; when \<open>totalPrice\<close> is finite and below \<open>10^21\<close> in
  magnitude this is a minus sign when it is negative, then the digits of an integer part,
  a point and exactly two digits, which together denote the multiple of \<open>1/100\<close> nearest
  to the double, the one of larger magnitude of two equally near.
\<close>

theorem totals_of_priced_items:
  assumes "list_all is_priced_item items"
  shows "(let n = foldl number_add (JNum 0) (map (\<lambda>item. JNum (quantity_of item)) items);
              t = foldl number_add (JNum 0)
                    (map (\<lambda>item. round_double (price_of item * quantity_of item)) items)
          in totalItems (JArr items) = Inr n
             \<and> totalPrice string_to_number (JArr items) = Inr t
             \<and> (\<exists>text. toFixed t = Inr text
                        \<and> render string_to_number (JArr items) = Inr (n, text))
             \<and> (list_all is_line_item items \<and> items_magnitude items \<le> 2 ^ 53 \<longrightarrow>
                  n = JNum (of_int (sum_list (map qty_of items))))
             \<and> (\<forall>x. t = JNum x \<and> \<bar>x\<bar> < 10 ^ 21 \<longrightarrow>
                  toFixed t =
                    Inr ((if x < 0 then ''-'' else []) @ show_nat (hundredths x div 100) @ ''.'' @
                         [digit_char (hundredths x div 10 mod 10), digit_char (hundredths x mod 10)])
                  \<and> \<bar>x\<bar> * 100 - 1 / 2 < of_nat (hundredths x)
                  \<and> of_nat (hundredths x) \<le> \<bar>x\<bar> * 100 + 1 / 2))"
proof -
  define n where "n = foldl number_add (JNum 0) (map (\<lambda>item. JNum (quantity_of item)) items)"
  define t where "t = foldl number_add (JNum 0)
                    (map (\<lambda>item. round_double (price_of item * quantity_of item)) items)"
  from assms have i: "totalItems (JArr items) = Inr n"
    by (simp add: totalItems_def n_def reduce_quantity)
  from assms have p: "totalPrice string_to_number (JArr items) = Inr t"
    by (simp add: totalPrice_def t_def reduce_price)
  have "is_number t"
    unfolding t_def by (rule is_number_foldl) (auto simp: is_number_round_double)
  then obtain shown where "toFixed t = Inr shown"
    using toFixed_number by blast
  with i p have r: "\<exists>text. toFixed t = Inr text
      \<and> render string_to_number (JArr items) = Inr (n, text)"
    by (simp add: render_def)
  have e: "n = JNum (of_int (sum_list (map qty_of items)))"
    if "list_all is_line_item items" "items_magnitude items \<le> 2 ^ 53"
  proof -
    from that(1) have "map (\<lambda>item. JNum (quantity_of item)) items =
        map (\<lambda>k. JNum (of_int k)) (map qty_of items)"
      by (simp add: list_all_iff quantity_of_line_item)
    moreover from that(2) have "\<bar>0\<bar> + sum_list (map abs (map qty_of items)) \<le> 2 ^ 53"
      by (simp add: items_magnitude_def comp_def)
    from foldl_number_add_int [OF this]
    have "foldl number_add (JNum 0) (map (\<lambda>k. JNum (of_int k)) (map qty_of items)) =
        JNum (of_int (sum_list (map qty_of items)))"
      by simp
    ultimately show ?thesis by (simp only: n_def)
  qed
  have f: "toFixed t =
             Inr ((if x < 0 then ''-'' else []) @ show_nat (hundredths x div 100) @ ''.'' @
                  [digit_char (hundredths x div 10 mod 10), digit_char (hundredths x mod 10)])
           \<and> \<bar>x\<bar> * 100 - 1 / 2 < of_nat (hundredths x)
           \<and> of_nat (hundredths x) \<le> \<bar>x\<bar> * 100 + 1 / 2"
    if "t = JNum x" "\<bar>x\<bar> < 10 ^ 21" for x
    using that hundredths_nearest [of x] by (simp add: toFixed2_digits)
  from i p r e f show ?thesis
    unfolding Let_def n_def [symmetric] t_def [symmetric] by blast
qed

theorem totals_of_priced_items_witness:
  "list_all is_priced_item [newItem product_p3 2]
   \<and> render string_to_number_sample (JArr [newItem product_p3 2]) = Inr (JNum 2, ''19.99'')"
proof -
  have h: "list_all is_priced_item [newItem product_p3 2]"
    by (simp add: is_priced_item_def newItem_def product_p3_def)
  have q: "quantity_of (newItem product_p3 2) = 2"
    by (simp add: quantity_of_def newItem_def)
  have p: "price_of (newItem product_p3 2) = 5626684784446013 / 562949953421312"
    by (simp add: price_of_def newItem_def product_p3_def)
  have f: "toFixed2 (5626684784446013 / 281474976710656) = ''19.99''"
    by (simp add: toFixed2_def hundredths_def Let_def floor_rat_numeral show_nat_step
        show_nat_small digit_char_def)
  show ?thesis
    using h totals_of_priced_items
      [where items = "[newItem product_p3 2]" and string_to_number = string_to_number_sample,
       OF h]
    by (simp add: Let_def q p round_double_numeral round_double_p3 f)
qed

end
